theory Spec2Isabelle
  imports Complex_Main "HOL-Library.Sublist"
begin

section \<open>Strings\<close>

text \<open>
  A Python \<^verbatim>\<open>str\<close> is modelled as a \<^typ>\<open>string\<close> that holds its UTF-8 encoding, so
  a character outside ASCII takes two or more bytes.

  \<^verbatim>\<open>str.strip()\<close> removes the characters for which \<^verbatim>\<open>str.isspace\<close> holds from both
  ends. These are the code points U+0009 to U+000D, U+001C to U+0020, U+0085, U+00A0,
  U+1680, U+2000 to U+200A, U+2028, U+2029, U+202F, U+205F and U+3000; the list below
  gives their encodings. In well-formed UTF-8 an encoding found at either end of a
  string is that character.
\<close>

definition WHITESPACE :: "string list" where
  "WHITESPACE =
     [[CHR 0x09], [CHR 0x0A], [CHR 0x0B], [CHR 0x0C], [CHR 0x0D],
      [CHR 0x1C], [CHR 0x1D], [CHR 0x1E], [CHR 0x1F], [CHR 0x20],
      [CHR 0xC2, CHR 0x85], [CHR 0xC2, CHR 0xA0], [CHR 0xE1, CHR 0x9A, CHR 0x80],
      [CHR 0xE2, CHR 0x80, CHR 0x80], [CHR 0xE2, CHR 0x80, CHR 0x81],
      [CHR 0xE2, CHR 0x80, CHR 0x82], [CHR 0xE2, CHR 0x80, CHR 0x83],
      [CHR 0xE2, CHR 0x80, CHR 0x84], [CHR 0xE2, CHR 0x80, CHR 0x85],
      [CHR 0xE2, CHR 0x80, CHR 0x86], [CHR 0xE2, CHR 0x80, CHR 0x87],
      [CHR 0xE2, CHR 0x80, CHR 0x88], [CHR 0xE2, CHR 0x80, CHR 0x89],
      [CHR 0xE2, CHR 0x80, CHR 0x8A], [CHR 0xE2, CHR 0x80, CHR 0xA8],
      [CHR 0xE2, CHR 0x80, CHR 0xA9], [CHR 0xE2, CHR 0x80, CHR 0xAF],
      [CHR 0xE2, CHR 0x81, CHR 0x9F], [CHR 0xE3, CHR 0x80, CHR 0x80]]"

text \<open>The number of bytes of the blank that \<open>s\<close> starts with, 0 if it starts with none.\<close>

definition blank_len :: "string list \<Rightarrow> string \<Rightarrow> nat" where
  "blank_len ws s = (case find (\<lambda>w. prefix w s) ws of None \<Rightarrow> 0 | Some w \<Rightarrow> length w)"

function strip_front :: "string list \<Rightarrow> string \<Rightarrow> string" where
  "strip_front ws s =
     (if s = [] \<or> blank_len ws s = 0 then s else strip_front ws (drop (blank_len ws s) s))"
  by pat_completeness auto
termination
  by (relation "measure (\<lambda>(ws, s). length s)") auto

declare strip_front.simps [simp del]

definition py_strip :: "string \<Rightarrow> string" where
  "py_strip s = rev (strip_front (map rev WHITESPACE) (rev (strip_front WHITESPACE s)))"

text \<open>
  \<^verbatim>\<open>str.lower()\<close> follows the case mappings of the Unicode tables, which are no part of
  the repository. The functions that call it take it as the parameter \<open>lower\<close>, and what
  is proved of them holds for every such function. On strings of ASCII characters
  \<^verbatim>\<open>str.lower()\<close> is \<open>ascii_lower\<close>, which the examples use.
\<close>

definition lower_char :: "char \<Rightarrow> char" where
  "lower_char c =
     (case map_of (zip ''ABCDEFGHIJKLMNOPQRSTUVWXYZ'' ''abcdefghijklmnopqrstuvwxyz'') c of
        Some l \<Rightarrow> l
      | None \<Rightarrow> c)"

definition ascii_lower :: "string \<Rightarrow> string" where
  "ascii_lower s = map lower_char s"

text \<open>
  On the capital letters of the Latvian alphabet outside ASCII (A, E, I and U with
  macron, C, S and Z with caron, G, K, L and N with cedilla; two bytes each)
  \<^verbatim>\<open>str.lower()\<close> yields the small letter, and it leaves the small letters as they
  are. \<open>latvian_lower\<close> is \<^verbatim>\<open>str.lower()\<close> on strings of ASCII characters and Latvian
  letters; the examples with Latvian text use it.
\<close>

definition LATVIAN_CAPITALS :: "((char \<times> char) \<times> (char \<times> char)) list" where
  "LATVIAN_CAPITALS =
     [((CHR 0xC4, CHR 0x80), (CHR 0xC4, CHR 0x81)), ((CHR 0xC4, CHR 0x8C), (CHR 0xC4, CHR 0x8D)),
      ((CHR 0xC4, CHR 0x92), (CHR 0xC4, CHR 0x93)), ((CHR 0xC4, CHR 0xA2), (CHR 0xC4, CHR 0xA3)),
      ((CHR 0xC4, CHR 0xAA), (CHR 0xC4, CHR 0xAB)), ((CHR 0xC4, CHR 0xB6), (CHR 0xC4, CHR 0xB7)),
      ((CHR 0xC4, CHR 0xBB), (CHR 0xC4, CHR 0xBC)), ((CHR 0xC5, CHR 0x85), (CHR 0xC5, CHR 0x86)),
      ((CHR 0xC5, CHR 0xA0), (CHR 0xC5, CHR 0xA1)), ((CHR 0xC5, CHR 0xAA), (CHR 0xC5, CHR 0xAB)),
      ((CHR 0xC5, CHR 0xBD), (CHR 0xC5, CHR 0xBE))]"

fun latvian_lower :: "string \<Rightarrow> string" where
  "latvian_lower [] = []"
| "latvian_lower [c] = [lower_char c]"
| "latvian_lower (c # d # r) =
     (case map_of LATVIAN_CAPITALS (c, d) of
        Some (c', d') \<Rightarrow> c' # d' # latvian_lower r
      | None \<Rightarrow> lower_char c # latvian_lower (d # r))"

section \<open>Fuel vocabulary (fuel\_sources.py)\<close>

definition SUPPORTED_FUELS :: "string list" where
  "SUPPORTED_FUELS = [''a95'', ''a98'', ''diesel'', ''lpg'']"

text \<open>
  \<^verbatim>\<open>FUEL_ALIASES\<close>, one list per key, in the insertion order of the dictionary
  literal (the order in which \<^verbatim>\<open>items()\<close> yields the entries). The Latvian
  letters are written as UTF-8 bytes: 0xC4 0xAB is i-macron, 0xC4 0xBC is l-cedilla,
  0xC4 0x81 is a-macron.
\<close>

definition A95_ALIASES :: "string list" where
  "A95_ALIASES = [''a95'', ''95'', ''95e'', ''95miles'', ''futura 95'', ''a-95'', ''eurosuper 95'']"

definition A98_ALIASES :: "string list" where
  "A98_ALIASES = [''a98'', ''98'', ''98e'', ''98miles'', ''futura 98'', ''a-98'', ''eurosuper 98'']"

definition DIESEL_ALIASES :: "string list" where
  "DIESEL_ALIASES =
     [''diesel'', ''d'', ''d'' @ [CHR 0xC4, CHR 0xAB] @ ''zelis'', ''d-miles'', ''dmiles'',
      ''futura d'', ''miles diesel'',
      ''d'' @ [CHR 0xC4, CHR 0xAB] @ ''ze'' @ [CHR 0xC4, CHR 0xBC] @ ''degviela'']"

definition LPG_ALIASES :: "string list" where
  "LPG_ALIASES =
     [''lpg'', ''autog'' @ [CHR 0xC4, CHR 0x81] @ ''ze'',
      ''auto g'' @ [CHR 0xC4, CHR 0x81] @ ''ze'', ''autogas'',
      ''prop'' @ [CHR 0xC4, CHR 0x81] @ ''ns-but'' @ [CHR 0xC4, CHR 0x81] @ ''ns'']"

definition FUEL_ALIASES :: "(string \<times> string list) list" where
  "FUEL_ALIASES =
     [(''a95'', A95_ALIASES), (''a98'', A98_ALIASES),
      (''diesel'', DIESEL_ALIASES), (''lpg'', LPG_ALIASES)]"

text \<open>The loop \<^verbatim>\<open>for key, aliases in FUEL_ALIASES.items()\<close>: the first table that
  holds \<open>s\<close> decides.\<close>

fun alias_lookup :: "(string \<times> string list) list \<Rightarrow> string \<Rightarrow> string option" where
  "alias_lookup [] s = None"
| "alias_lookup ((key, aliases) # rest) s =
     (if s \<in> set aliases then Some key else alias_lookup rest s)"

definition LOOSE_95 :: "string list" where
  "LOOSE_95 = [''95e'', ''95m'', ''a95e'']"

definition LOOSE_98 :: "string list" where
  "LOOSE_98 = [''98e'', ''98m'', ''a98e'']"

definition normalize_fuel_type :: "(string \<Rightarrow> string) \<Rightarrow> string \<Rightarrow> string option" where
  "normalize_fuel_type lower s0 =
     (let s = lower (py_strip s0) in
      case alias_lookup FUEL_ALIASES s of
        Some key \<Rightarrow> Some key
      | None \<Rightarrow>
          if s \<in> set LOOSE_95 then Some ''a95''
          else if s \<in> set LOOSE_98 then Some ''a98''
          else if s \<notin> set SUPPORTED_FUELS then None else Some s)"

section \<open>Prices (parser\_utils.py)\<close>

text \<open>
  A price is a Python \<^verbatim>\<open>float\<close>. The model keeps the decimal number that the text
  denotes, as a \<^typ>\<open>rat\<close>: binary rounding, infinities and NaN are left out, and the
  comparisons of the program are comparisons of these numbers. \<^verbatim>\<open>float(s)\<close> is modelled
  on plain decimal literals (an optional sign, digits, an optional fraction), which is
  what every price pattern of the adapters matches; \<open>None\<close> stands for the
  \<^verbatim>\<open>ValueError\<close> that Python raises. Every string the model accepts Python accepts,
  with the same value. Exponent, underscore, \<^verbatim>\<open>inf\<close> and \<^verbatim>\<open>nan\<close> spellings and digits
  outside ASCII, which Python also accepts, are outside the model: no adapter passes
  them, and for them the \<open>None\<close> of the model does not describe Python.
\<close>

definition is_digit :: "char \<Rightarrow> bool" where
  "is_digit c = (c \<in> set ''0123456789'')"

definition digit_val :: "char \<Rightarrow> nat" where
  "digit_val c =
     (case map_of (zip ''0123456789'' [0, 1, 2, 3, 4, 5, 6, 7, 8, 9]) c of
        Some d \<Rightarrow> d
      | None \<Rightarrow> 0)"

definition digits_val :: "string \<Rightarrow> nat" where
  "digits_val s = foldl (\<lambda>a c. 10 * a + digit_val c) 0 s"

definition unsigned_decimal :: "string \<Rightarrow> rat option" where
  "unsigned_decimal s =
     (let ip = takeWhile is_digit s in
      case dropWhile is_digit s of
        [] \<Rightarrow> if ip = [] then None else Some (of_nat (digits_val ip))
      | c # fp \<Rightarrow>
          if c = CHR ''.'' \<and> list_all is_digit fp \<and> (ip \<noteq> [] \<or> fp \<noteq> [])
          then Some (of_nat (digits_val ip) + of_nat (digits_val fp) / 10 ^ length fp)
          else None)"

definition py_float :: "string \<Rightarrow> rat option" where
  "py_float s =
     (case py_strip s of
        [] \<Rightarrow> None
      | c # r \<Rightarrow>
          if c = CHR ''-'' then map_option uminus (unsigned_decimal r)
          else if c = CHR ''+'' then unsigned_decimal r
          else unsigned_decimal (c # r))"

text \<open>\<^verbatim>\<open>round(x, 3)\<close>. On a number with at most three fractional digits it is the
  identity; the tie-breaking of longer decimals depends on the binary value of the float
  and is not modelled beyond rounding to the nearest thousandth.\<close>

definition py_round3 :: "rat \<Rightarrow> rat" where
  "py_round3 x = of_int (round (x * 1000)) / 1000"

definition replace_comma :: "string \<Rightarrow> string" where
  "replace_comma s = map (\<lambda>c. if c = CHR '','' then CHR ''.'' else c) s"

text \<open>\<^verbatim>\<open>parse_eur\<close>: the \<^verbatim>\<open>except Exception\<close> branch returns Python's \<^verbatim>\<open>None\<close>,
  here \<open>None\<close>.\<close>

definition parse_eur :: "string \<Rightarrow> rat option" where
  "parse_eur s =
     (case py_float (py_strip (replace_comma s)) of
        None \<Rightarrow> None
      | Some x \<Rightarrow> Some (py_round3 x))"

section \<open>Station records and the store of price dictionaries\<close>

text \<open>
  A station is the dictionary described in the docstring of \<^verbatim>\<open>FuelFetcher\<close>. Its
  \<^verbatim>\<open>"prices"\<close> entry is a mutable dictionary object, which the merge loop of
  \<^verbatim>\<open>fetch_all\<close> updates in place; so a station holds a reference to its price
  dictionary and the dictionaries live in a store. The other entries are never assigned
  after construction and are kept by value. A price dictionary is an association list
  in insertion order with at most one entry per key; a value \<open>None\<close> is Python's
  \<^verbatim>\<open>None\<close>.
\<close>

type_synonym ref = nat

type_synonym 'p prices_dict = "(string \<times> 'p option) list"

record station =
  name :: string
  address :: string
  prices :: ref
  source :: string
  timestamp :: string

record 'p heap =
  cells :: "ref \<Rightarrow> 'p prices_dict"
  next_ref :: ref

text \<open>\<^verbatim>\<open>d.get(k)\<close>: \<open>None\<close> for a missing key and for a stored \<^verbatim>\<open>None\<close> alike.\<close>

definition dict_get :: "'p prices_dict \<Rightarrow> string \<Rightarrow> 'p option" where
  "dict_get d k = (case map_of d k of None \<Rightarrow> None | Some v \<Rightarrow> v)"

text \<open>\<^verbatim>\<open>d[k] = v\<close>: an existing key keeps its position, a new key goes last.\<close>

fun dict_set :: "string \<Rightarrow> 'p option \<Rightarrow> 'p prices_dict \<Rightarrow> 'p prices_dict" where
  "dict_set k v [] = [(k, v)]"
| "dict_set k v ((k', v') # d) = (if k' = k then (k, v) # d else (k', v') # dict_set k v d)"

text \<open>A dictionary display or \<^verbatim>\<open>prices.copy()\<close>: a new object with the given content.\<close>

definition alloc :: "'p prices_dict \<Rightarrow> 'p heap \<Rightarrow> ref \<times> 'p heap" where
  "alloc d h = (next_ref h, h\<lparr>cells := (cells h)(next_ref h := d), next_ref := Suc (next_ref h)\<rparr>)"

definition store :: "ref \<Rightarrow> string \<Rightarrow> 'p \<Rightarrow> 'p heap \<Rightarrow> 'p heap" where
  "store r k v h = h\<lparr>cells := (cells h)(r := dict_set k (Some v) (cells h r))\<rparr>"

section \<open>The aggregator (FuelFetcher.fetch\_all)\<close>

type_synonym key = "string \<times> string"

definition canonical_key :: "(string \<Rightarrow> string) \<Rightarrow> station \<Rightarrow> key" where
  "canonical_key lower st = (lower (py_strip (name st)), lower (py_strip (address st)))"

text \<open>
  The inner loop \<^verbatim>\<open>for k, v in st.get("prices", {}).items()\<close>, writing into the
  dictionary at \<open>r\<close>, which is \<^verbatim>\<open>uniq[key]["prices"]\<close>. The items are those the incoming
  dictionary has when the loop starts. Where the incoming dictionary and the one at \<open>r\<close>
  are one object, \<^verbatim>\<open>old\<close> is \<^verbatim>\<open>v\<close> at every item and nothing is assigned, so the view
  that \<^verbatim>\<open>items()\<close> gives does not change under the iteration.
  \<^verbatim>\<open>isinstance(v, (int, float))\<close> holds for every price.
\<close>

fun merge_prices :: "ref \<Rightarrow> ('p::linorder) prices_dict \<Rightarrow> 'p heap \<Rightarrow> 'p heap" where
  "merge_prices r [] h = h"
| "merge_prices r ((k, v) # items) h =
     merge_prices r items
       (case v of
          None \<Rightarrow> h
        | Some x \<Rightarrow>
            (case dict_get (cells h r) k of
               None \<Rightarrow> store r k x h
             | Some old \<Rightarrow> if x < old then store r k x h else h))"

text \<open>The body of \<^verbatim>\<open>for st in stations\<close>; \<open>uniq\<close> is the dictionary from keys to
  stations, in insertion order.\<close>

definition merge_station ::
  "(string \<Rightarrow> string) \<Rightarrow> station \<Rightarrow> (key \<times> station) list \<times> ('p::linorder) heap
     \<Rightarrow> (key \<times> station) list \<times> 'p heap" where
  "merge_station lower st s =
     (case s of (uniq, h) \<Rightarrow>
        (case map_of uniq (canonical_key lower st) of
           Some e \<Rightarrow> (uniq, merge_prices (prices e) (cells h (prices st)) h)
         | None \<Rightarrow> (uniq @ [(canonical_key lower st, st)], h)))"

fun dedup ::
  "(string \<Rightarrow> string) \<Rightarrow> station list \<Rightarrow> (key \<times> station) list \<times> ('p::linorder) heap
     \<Rightarrow> (key \<times> station) list \<times> 'p heap" where
  "dedup lower [] s = s"
| "dedup lower (st # sts) s = dedup lower sts (merge_station lower st s)"

text \<open>The exceptions of the model: what the transport raises, and the two that the
  code after the \<^verbatim>\<open>try\<close> statement of an adapter could raise.\<close>

datatype exn = ClientError | TypeError | IndexError

text \<open>The loop over the results of \<^verbatim>\<open>asyncio.gather(..., return_exceptions=True)\<close>:
  a result is the exception an adapter raised, or the list it returned.\<close>

fun collect :: "(exn + station list) list \<Rightarrow> station list" where
  "collect [] = []"
| "collect (Inl e # results) = collect results"
| "collect (Inr res # results) = res @ collect results"

definition fetch_all ::
  "(string \<Rightarrow> string) \<Rightarrow> (exn + station list) list \<Rightarrow> ('p::linorder) heap
     \<Rightarrow> station list \<times> 'p heap" where
  "fetch_all lower results h =
     (case dedup lower (collect results) ([], h) of (uniq, h') \<Rightarrow> (map snd uniq, h'))"

section \<open>The ranking query (main.py, top\_cmd)\<close>

text \<open>\<^verbatim>\<open>rows[:n]\<close>, also for a negative \<open>n\<close>.\<close>

definition slice_to :: "'a list \<Rightarrow> int \<Rightarrow> 'a list" where
  "slice_to xs n = (if 0 \<le> n then take (nat n) xs else take (nat (int (length xs) + n)) xs)"

definition priced_rows :: "station list \<Rightarrow> 'p heap \<Rightarrow> string \<Rightarrow> ('p \<times> station) list" where
  "priced_rows stations h fuel =
     List.map_filter
       (\<lambda>st. case dict_get (cells h (prices st)) fuel of
                None \<Rightarrow> None
              | Some price \<Rightarrow> Some (price, st))
       stations"

text \<open>Lines 76 to 88 of \<^verbatim>\<open>top_cmd\<close>. With no row the command answers that no price
  was found and shows no list; the model returns the empty list. \<^verbatim>\<open>list.sort\<close> is
  stable, as is \<^const>\<open>sort_key\<close>.\<close>

definition top_rows :: "station list \<Rightarrow> ('p::linorder) heap \<Rightarrow> string \<Rightarrow> int \<Rightarrow> ('p \<times> station) list" where
  "top_rows stations h fuel n =
     (let rows = priced_rows stations h fuel in
      if rows = [] then [] else slice_to (sort_key fst rows) n)"

section \<open>Source adapters (fuel\_sources.py)\<close>

text \<open>
  An adapter awaits \<^verbatim>\<open>self._get(url)\<close> inside \<^verbatim>\<open>try\<close>; the outcome is the exception
  raised by the transport or the fetched document. Everything after the \<^verbatim>\<open>try\<close>
  statement runs unguarded, so an adapter returns either an exception or a list of
  stations together with the store, in which it has allocated their price dictionaries.

  The reduction of HTML to text and the regular expression engine are libraries. A
  document is represented by what the patterns of the adapter find in its text: the
  groups of the matches, in the order of \<^verbatim>\<open>finditer\<close>, or \<open>None\<close> where \<^verbatim>\<open>re.search\<close>
  or \<^verbatim>\<open>str.find\<close> finds nothing. What the adapter does with these strings is modelled
  in full.
\<close>

text \<open>\<^verbatim>\<open>s.split(",")\<close> and \<^verbatim>\<open>", ".join(parts)\<close>.\<close>

fun py_split :: "char \<Rightarrow> string \<Rightarrow> string list" where
  "py_split sep [] = [[]]"
| "py_split sep (c # cs) =
     (if c = sep then [] # py_split sep cs
      else (case py_split sep cs of
              [] \<Rightarrow> [[c]]
            | p # ps \<Rightarrow> (c # p) # ps))"

fun py_join :: "string \<Rightarrow> string list \<Rightarrow> string" where
  "py_join sep [] = []"
| "py_join sep [p] = p"
| "py_join sep (p # q # ps) = p @ sep @ py_join sep (q # ps)"

subsection \<open>gas.didnt.work\<close>

text \<open>One match of the pattern: groups 1 and 2, and group 3 where the optional date
  took part in the match.\<close>

type_synonym gas_match = "string \<times> string \<times> string option"

text \<open>The body of \<^verbatim>\<open>for m in pattern.finditer(text)\<close>. \<^verbatim>\<open>parts[0]\<close> raises
  \<^verbatim>\<open>IndexError\<close> on an empty list.\<close>

definition gas_station :: "gas_match \<Rightarrow> rat heap \<Rightarrow> exn + station \<times> rat heap" where
  "gas_station m h =
     (case m of (g1, g2, g3) \<Rightarrow>
        let full = py_strip g1;
            price = parse_eur g2;
            date = (case g3 of None \<Rightarrow> '''' | Some d \<Rightarrow> d);
            parts = map py_strip (py_split CHR '','' full)
        in case parts of
             [] \<Rightarrow> Inl IndexError
           | nm # rest \<Rightarrow>
               let addr = (if 1 < length parts then py_join '', '' rest else '''');
                   (r, h') = alloc [(''a95'', price), (''diesel'', price)] h
               in Inr (\<lparr>name = nm, address = addr, prices = r,
                         source = ''gas.didnt.work'', timestamp = date\<rparr>, h'))"

fun gas_stations :: "gas_match list \<Rightarrow> rat heap \<Rightarrow> exn + station list \<times> rat heap" where
  "gas_stations [] h = Inr ([], h)"
| "gas_stations (m # ms) h =
     (case gas_station m h of
        Inl e \<Rightarrow> Inl e
      | Inr (st, h1) \<Rightarrow>
          (case gas_stations ms h1 of
             Inl e \<Rightarrow> Inl e
           | Inr (sts, h2) \<Rightarrow> Inr (st # sts, h2)))"

definition fetch_gas_didnt_work ::
  "exn + gas_match list \<Rightarrow> rat heap \<Rightarrow> exn + station list \<times> rat heap" where
  "fetch_gas_didnt_work got h =
     (case got of
        Inl e \<Rightarrow> Inr ([], h)
      | Inr matches \<Rightarrow> gas_stations matches h)"

subsection \<open>The chain adapters\<close>

text \<open>The closing loop of the four chain adapters,
  \<^verbatim>\<open>for addr in addresses[:20]: stations.append({...})\<close>, for the name and the source of
  the chain: every station gets its own copy of \<open>pr\<close>, made by \<^verbatim>\<open>prices.copy()\<close>.\<close>

fun chain_stations ::
  "string \<Rightarrow> string \<Rightarrow> string list \<Rightarrow> 'p prices_dict \<Rightarrow> 'p heap \<Rightarrow> station list \<times> 'p heap" where
  "chain_stations nm src [] pr h = ([], h)"
| "chain_stations nm src (addr # addrs) pr h =
     (case alloc pr h of (r, h1) \<Rightarrow>
        (case chain_stations nm src addrs pr h1 of (sts, h2) \<Rightarrow>
           (\<lparr>name = nm, address = addr, prices = r, source = src, timestamp = ''''\<rparr> # sts, h2)))"

text \<open>\<^verbatim>\<open>if m: prices[key] = parse_eur(m.group(1))\<close>, which is also what \<^verbatim>\<open>grab\<close> of
  \<^verbatim>\<open>fetch_circlek\<close> does with the price it finds after a label.\<close>

definition grab :: "string option \<Rightarrow> string \<Rightarrow> rat prices_dict \<Rightarrow> rat prices_dict" where
  "grab m key pr = (case m of None \<Rightarrow> pr | Some tok \<Rightarrow> dict_set key (parse_eur tok) pr)"

text \<open>Circle K: the price token found after each of the four labels, and the list
  \<^verbatim>\<open>addresses\<close>.\<close>

record circlek_page =
  ck_95miles :: "string option"
  ck_98miles :: "string option"
  ck_dmiles :: "string option"
  ck_autogaze :: "string option"
  ck_addresses :: "string list"

definition fetch_circlek ::
  "exn + circlek_page \<Rightarrow> rat heap \<Rightarrow> exn + station list \<times> rat heap" where
  "fetch_circlek got h =
     (case got of
        Inl e \<Rightarrow> Inr ([], h)
      | Inr page \<Rightarrow>
          let pr = grab (ck_autogaze page) ''lpg''
                    (grab (ck_dmiles page) ''diesel''
                      (grab (ck_98miles page) ''a98''
                        (grab (ck_95miles page) ''a95'' [])))
          in Inr (chain_stations ''Circle K'' ''circlek'' (take 20 (ck_addresses page)) pr h))"

text \<open>Neste: group 1 of \<^verbatim>\<open>m95\<close>, \<^verbatim>\<open>m98\<close> and \<^verbatim>\<open>md\<close>, and the list \<^verbatim>\<open>addr_block\<close>.\<close>

record neste_page =
  ne_m95 :: "string option"
  ne_m98 :: "string option"
  ne_md :: "string option"
  ne_addr_block :: "string list"

definition fetch_neste ::
  "exn + neste_page \<Rightarrow> rat heap \<Rightarrow> exn + station list \<times> rat heap" where
  "fetch_neste got h =
     (case got of
        Inl e \<Rightarrow> Inr ([], h)
      | Inr page \<Rightarrow>
          let pr = grab (ne_md page) ''diesel''
                    (grab (ne_m98 page) ''a98''
                      (grab (ne_m95 page) ''a95'' []))
          in Inr (chain_stations ''Neste'' ''neste'' (take 20 (ne_addr_block page)) pr h))"

text \<open>Virsi: group 1 of the four price matches and the list \<^verbatim>\<open>addresses\<close>. The
  name is written in UTF-8: 0xC5 0xA1 is s-caron.\<close>

record virsi_page =
  vi_m95 :: "string option"
  vi_m98 :: "string option"
  vi_md :: "string option"
  vi_lpg :: "string option"
  vi_addresses :: "string list"

definition fetch_virsi ::
  "exn + virsi_page \<Rightarrow> rat heap \<Rightarrow> exn + station list \<times> rat heap" where
  "fetch_virsi got h =
     (case got of
        Inl e \<Rightarrow> Inr ([], h)
      | Inr page \<Rightarrow>
          let pr = grab (vi_lpg page) ''lpg''
                    (grab (vi_md page) ''diesel''
                      (grab (vi_m98 page) ''a98''
                        (grab (vi_m95 page) ''a95'' [])))
          in Inr (chain_stations (''Vir'' @ [CHR 0xC5, CHR 0xA1] @ ''i'') ''virsi''
                    (take 10 (vi_addresses page)) pr h))"

text \<open>Viada: group 1 of every match of the price pattern, and the matches of the address
  pattern.\<close>

record viada_page =
  va_tokens :: "string list"
  va_addrs :: "string list"

text \<open>\<^verbatim>\<open>k not in prices or val < prices[k]\<close>; comparing with a stored \<^verbatim>\<open>None\<close> raises
  \<^verbatim>\<open>TypeError\<close>.\<close>

definition not_in_or_less :: "rat \<Rightarrow> string \<Rightarrow> rat prices_dict \<Rightarrow> exn + bool" where
  "not_in_or_less val k pr =
     (case map_of pr k of
        None \<Rightarrow> Inr True
      | Some None \<Rightarrow> Inl TypeError
      | Some (Some p) \<Rightarrow> Inr (val < p))"

text \<open>The loop over the price tokens. \<^verbatim>\<open>val < 1.0\<close> raises \<^verbatim>\<open>TypeError\<close> when
  \<^verbatim>\<open>parse_eur\<close> has returned \<^verbatim>\<open>None\<close>. Assigning \<^verbatim>\<open>prices["lpg"]\<close> to itself, in
  the else branch of the conditional expression, changes nothing.\<close>

fun viada_prices :: "string list \<Rightarrow> rat prices_dict \<Rightarrow> exn + rat prices_dict" where
  "viada_prices [] pr = Inr pr"
| "viada_prices (tok # toks) pr =
     (case parse_eur tok of
        None \<Rightarrow> Inl TypeError
      | Some val \<Rightarrow>
          if val < 1 then
            (case not_in_or_less val ''lpg'' pr of
               Inl e \<Rightarrow> Inl e
             | Inr b \<Rightarrow> viada_prices toks (if b then dict_set ''lpg'' (Some val) pr else pr))
          else
            (case not_in_or_less val ''a95'' pr of
               Inl e \<Rightarrow> Inl e
             | Inr b95 \<Rightarrow>
                 (case not_in_or_less val ''diesel''
                         (if b95 then dict_set ''a95'' (Some val) pr else pr) of
                    Inl e \<Rightarrow> Inl e
                  | Inr bd \<Rightarrow>
                      viada_prices toks
                        (if bd
                         then dict_set ''diesel'' (Some val)
                                (if b95 then dict_set ''a95'' (Some val) pr else pr)
                         else (if b95 then dict_set ''a95'' (Some val) pr else pr)))))"

definition fetch_viada ::
  "exn + viada_page \<Rightarrow> rat heap \<Rightarrow> exn + station list \<times> rat heap" where
  "fetch_viada got h =
     (case got of
        Inl e \<Rightarrow> Inr ([], h)
      | Inr page \<Rightarrow>
          (case viada_prices (va_tokens page) [] of
             Inl e \<Rightarrow> Inl e
           | Inr pr \<Rightarrow> Inr (chain_stations ''Viada'' ''viada'' (take 20 (va_addrs page)) pr h)))"

section \<open>Auxiliary notions for the statements\<close>

text \<open>
  The merge rule in the words of the specification: an incoming price is adopted when
  the existing record has none for that fuel, the lower of the two is kept when both have
  one, and a fuel the incoming record does not price keeps what the existing record has.
\<close>

definition spec_merged_price :: "('p::linorder) option \<Rightarrow> 'p option \<Rightarrow> 'p option" where
  "spec_merged_price existing incoming =
     (case incoming of
        None \<Rightarrow> existing
      | Some v \<Rightarrow> (case existing of None \<Rightarrow> Some v | Some old \<Rightarrow> Some (min old v)))"

text \<open>Every price of \<open>items\<close> is matched by a price in the dictionary at \<open>r\<close> that is
  not higher.\<close>

definition dominated :: "ref \<Rightarrow> ('p::linorder) prices_dict \<Rightarrow> 'p heap \<Rightarrow> bool" where
  "dominated r items h =
     (\<forall>(k, v) \<in> set items. \<forall>x. v = Some x \<longrightarrow> (\<exists>w. dict_get (cells h r) k = Some w \<and> w \<le> x))"

text \<open>Two observations of one station, from two sources, and the store that holds their
  price dictionaries.\<close>

definition example_first :: station where
  "example_first =
     \<lparr>name = ''Viada'', address = ''Riga, Krasta 1'', prices = 0, source = ''viada'',
      timestamp = ''''\<rparr>"

definition example_second :: station where
  "example_second =
     \<lparr>name = '' viada '', address = ''riga, krasta 1 '', prices = 1,
      source = ''gas.didnt.work'', timestamp = ''2025-11-08''\<rparr>"

definition example_heap :: "rat heap" where
  "example_heap =
     \<lparr>cells = (\<lambda>r. [])(0 := [(''a95'', Some (3 / 2))],
                         1 := [(''a95'', Some (29 / 20)), (''diesel'', Some (8 / 5))]),
      next_ref = 2\<rparr>"

text \<open>Two more observations: one of the same station, in capitals, and one of another
  station; a store with the four price dictionaries; and the results of three adapters,
  of which one has raised.\<close>

definition example_third :: station where
  "example_third =
     \<lparr>name = ''VIADA'', address = ''RIGA, KRASTA 1'', prices = 2,
      source = ''gas.didnt.work'', timestamp = ''2025-11-09''\<rparr>"

definition example_other :: station where
  "example_other =
     \<lparr>name = ''Neste'', address = ''Rencenu iela 5'', prices = 3, source = ''neste'',
      timestamp = ''''\<rparr>"

definition example_heap4 :: "rat heap" where
  "example_heap4 =
     \<lparr>cells = (\<lambda>r. [])(0 := [(''a95'', Some (3 / 2))],
                         1 := [(''a95'', Some (29 / 20)), (''diesel'', Some (8 / 5))],
                         2 := [(''a95'', Some (31 / 20)), (''diesel'', Some (3 / 2))],
                         3 := [(''a95'', Some (7 / 5))]),
      next_ref = 4\<rparr>"

definition example_results :: "(exn + station list) list" where
  "example_results =
     [Inr [example_first, example_other], Inl ClientError, Inr [example_second, example_third]]"

text \<open>
  What the price patterns of the adapters match: a run of decimal digits, alone or
  followed by a point and more digits (\<^verbatim>\<open>[0-9]+(?:\.[0-9]{2,3})?\<close> on gas.didnt.work,
  \<^verbatim>\<open>[0-9]+\.[0-9]{3}\<close> on Circle K and Viada, and \<^verbatim>\<open>[\d]+\.[\d]{3}\<close> on Neste and
  Virsi, where \<^verbatim>\<open>\d\<close> is taken on the ASCII digits).
\<close>

definition price_token :: "string \<Rightarrow> bool" where
  "price_token s =
     (takeWhile is_digit s \<noteq> [] \<and>
      (case dropWhile is_digit s of
         [] \<Rightarrow> True
       | c # fp \<Rightarrow> c = CHR ''.'' \<and> fp \<noteq> [] \<and> list_all is_digit fp))"

definition opt_token :: "string option \<Rightarrow> bool" where
  "opt_token m = (case m of None \<Rightarrow> True | Some t \<Rightarrow> price_token t)"

text \<open>The keys of a price dictionary are canonical fuel identifiers and its values are
  numbers that are not negative.\<close>

definition prices_ok :: "rat prices_dict \<Rightarrow> bool" where
  "prices_ok d =
     list_all (\<lambda>(k, v). k \<in> set SUPPORTED_FUELS \<and> (case v of None \<Rightarrow> False | Some x \<Rightarrow> 0 \<le> x)) d"

text \<open>What the records of one call of a chain adapter have in common: the addresses
  are the given ones, in order; name, source and timestamp are constant; the price
  dictionaries are pairwise different objects, none of which existed in the store \<open>h\<close>
  before the call, and all have the content \<open>pr\<close> in the store \<open>h'\<close> after it.\<close>

definition chain_records ::
  "string \<Rightarrow> string \<Rightarrow> string list \<Rightarrow> 'p prices_dict \<Rightarrow> station list \<Rightarrow> 'p heap \<Rightarrow> 'p heap
     \<Rightarrow> bool" where
  "chain_records nm src addrs pr sts h h' =
     (map address sts = addrs \<and>
      list_all (\<lambda>st. name st = nm \<and> source st = src \<and> timestamp st = '''') sts \<and>
      distinct (map prices sts) \<and>
      list_all (\<lambda>st. next_ref h \<le> prices st \<and> prices st < next_ref h') sts \<and>
      list_all (\<lambda>st. cells h' (prices st) = pr) sts)"

text \<open>A store with no dictionary allocated, and a Viada page whose text reads
  \<^verbatim>\<open>LPG 0.000 EUR Jelgava Rigas iela 1\<close>.\<close>

definition empty_heap :: "rat heap" where
  "empty_heap = \<lparr>cells = (\<lambda>r. []), next_ref = 0\<rparr>"

definition zero_price_page :: viada_page where
  "zero_price_page = \<lparr>va_tokens = [''0.000''], va_addrs = [''Jelgava Rigas iela 1'']\<rparr>"

text \<open>A Viada page in which the station pattern finds an address and the price pattern
  finds nothing.\<close>

definition unpriced_page :: viada_page where
  "unpriced_page = \<lparr>va_tokens = [], va_addrs = [''Jelgava Rigas iela 1'']\<rparr>"

text \<open>One page of each chain, as its adapter's patterns see it.\<close>

definition example_circlek_page :: circlek_page where
  "example_circlek_page =
     \<lparr>ck_95miles = Some ''1.514'', ck_98miles = Some ''1.614'', ck_dmiles = Some ''1.484'',
      ck_autogaze = None, ck_addresses = [''Krasta iela 101'', ''Brivibas gatve 253'']\<rparr>"

definition example_neste_page :: neste_page where
  "example_neste_page =
     \<lparr>ne_m95 = Some ''1.497'', ne_m98 = None, ne_md = Some ''1.467'',
      ne_addr_block = [''Rencenu iela 5'']\<rparr>"

definition example_virsi_page :: virsi_page where
  "example_virsi_page =
     \<lparr>vi_m95 = Some ''1.504'', vi_m98 = Some ''1.604'', vi_md = Some ''1.474'',
      vi_lpg = Some ''0.745'', vi_addresses = [''Krasta iela 68'', ''Brivibas iela 401'']\<rparr>"

definition example_viada_page :: viada_page where
  "example_viada_page =
     \<lparr>va_tokens = [''1.522'', ''0.735'', ''1.489''],
      va_addrs = [''Jelgava Rigas iela 1'', ''Daugavpils Vienibas iela 2'']\<rparr>"

text \<open>The match of the gas.didnt.work pattern on the text quoted in the comment of the
  adapter, with an ASCII spelling of the city.\<close>

definition example_gas_matches :: "gas_match list" where
  "example_gas_matches =
     [(''Viada Valgales Valgales iela, 1, Riga, Latvia'', ''1.37'', Some ''2025-11-08'')]"

section \<open>The fuel vocabulary\<close>

lemma alias_a95_all: "list_all (\<lambda>t. alias_lookup FUEL_ALIASES t = Some ''a95'') A95_ALIASES"
  by code_simp
lemma alias_a98_all: "list_all (\<lambda>t. alias_lookup FUEL_ALIASES t = Some ''a98'') A98_ALIASES"
  by code_simp
lemma alias_diesel_all: "list_all (\<lambda>t. alias_lookup FUEL_ALIASES t = Some ''diesel'') DIESEL_ALIASES"
  by code_simp
lemma alias_lpg_all: "list_all (\<lambda>t. alias_lookup FUEL_ALIASES t = Some ''lpg'') LPG_ALIASES"
  by code_simp

lemma alias_none: "\<forall>(key, aliases) \<in> set FUEL_ALIASES. t \<notin> set aliases \<Longrightarrow> alias_lookup FUEL_ALIASES t = None"
  unfolding FUEL_ALIASES_def by simp 

lemma FUEL_ALIASES_cases:
  assumes "(key, aliases) \<in> set FUEL_ALIASES"
  obtains "key = ''a95''" "aliases = A95_ALIASES" | "key = ''a98''" "aliases = A98_ALIASES"
    | "key = ''diesel''" "aliases = DIESEL_ALIASES" | "key = ''lpg''" "aliases = LPG_ALIASES"
proof -
  from assms have "(key, aliases) \<in> {(''a95'', A95_ALIASES), (''a98'', A98_ALIASES),
      (''diesel'', DIESEL_ALIASES), (''lpg'', LPG_ALIASES)}"
    by (simp only: FUEL_ALIASES_def list.set)
  then have "(key, aliases) = (''a95'', A95_ALIASES) \<or> (key, aliases) = (''a98'', A98_ALIASES) \<or>
      (key, aliases) = (''diesel'', DIESEL_ALIASES) \<or> (key, aliases) = (''lpg'', LPG_ALIASES)"
    by (simp only: insert_iff empty_iff simp_thms)
  then show thesis
    using that by (elim disjE) (simp_all only: prod.inject)
qed

lemma alias_lookup_hit:
  assumes "(key, aliases) \<in> set FUEL_ALIASES" and "t \<in> set aliases"
  shows "alias_lookup FUEL_ALIASES t = Some key"
  using assms(1)
proof (cases rule: FUEL_ALIASES_cases)
  case 1
  with assms(2) alias_a95_all show ?thesis by (simp only: list_all_iff)
next
  case 2
  with assms(2) alias_a98_all show ?thesis by (simp only: list_all_iff)
next
  case 3
  with assms(2) alias_diesel_all show ?thesis by (simp only: list_all_iff)
next
  case 4
  with assms(2) alias_lpg_all show ?thesis by (simp only: list_all_iff)
qed

text \<open>
  Claim C3. Whatever function \<^verbatim>\<open>str.lower()\<close> is: a string that, trimmed and
  lowercased, is in the alias list of a fuel is normalised to that fuel's canonical
  identifier; a string that, trimmed and lowercased, is in no alias list, in neither
  loose list and is no canonical identifier is normalised to nothing. Trimming removes
  every character that Python counts as a blank, the no-break space among them.
\<close>

theorem normalize_fuel_type_spec:
  "((key, aliases) \<in> set FUEL_ALIASES \<and> lower (py_strip s) \<in> set aliases
      \<longrightarrow> normalize_fuel_type lower s = Some key) \<and>
   ((\<forall>(k, al) \<in> set FUEL_ALIASES. lower (py_strip s) \<notin> set al) \<and>
    lower (py_strip s) \<notin> set LOOSE_95 \<and> lower (py_strip s) \<notin> set LOOSE_98 \<and>
    lower (py_strip s) \<notin> set SUPPORTED_FUELS
      \<longrightarrow> normalize_fuel_type lower s = None)"
proof (intro conjI impI)
  assume "(key, aliases) \<in> set FUEL_ALIASES \<and> lower (py_strip s) \<in> set aliases"
  then have "alias_lookup FUEL_ALIASES (lower (py_strip s)) = Some key"
    by (blast intro: alias_lookup_hit)
  then show "normalize_fuel_type lower s = Some key"
    by (simp add: normalize_fuel_type_def)
next
  assume "(\<forall>(k, al) \<in> set FUEL_ALIASES. lower (py_strip s) \<notin> set al) \<and>
    lower (py_strip s) \<notin> set LOOSE_95 \<and> lower (py_strip s) \<notin> set LOOSE_98 \<and>
    lower (py_strip s) \<notin> set SUPPORTED_FUELS"
  then show "normalize_fuel_type lower s = None"
    by (simp add: normalize_fuel_type_def alias_none)
qed

theorem normalize_fuel_type_spec_witness:
  "normalize_fuel_type ascii_lower '' Futura 95 '' = Some ''a95'' \<and>
   normalize_fuel_type ascii_lower ''Petrol'' = None \<and>
   normalize_fuel_type latvian_lower
     ([CHR 0xC2, CHR 0xA0] @ ''D'' @ [CHR 0xC4, CHR 0xAA] @ ''ZELIS '') = Some ''diesel''"
proof -
  have h1: "(''a95'', A95_ALIASES) \<in> set FUEL_ALIASES"
    by (simp add: FUEL_ALIASES_def)
  have h2: "ascii_lower (py_strip '' Futura 95 '') \<in> set A95_ALIASES"
    by code_simp
  have h3: "\<forall>(k, al) \<in> set FUEL_ALIASES. ascii_lower (py_strip ''Petrol'') \<notin> set al"
    by code_simp
  have h4: "ascii_lower (py_strip ''Petrol'') \<notin> set LOOSE_95"
    "ascii_lower (py_strip ''Petrol'') \<notin> set LOOSE_98"
    "ascii_lower (py_strip ''Petrol'') \<notin> set SUPPORTED_FUELS"
    by code_simp+
  have h5: "(''diesel'', DIESEL_ALIASES) \<in> set FUEL_ALIASES"
    by (simp add: FUEL_ALIASES_def)
  have h6: "latvian_lower (py_strip ([CHR 0xC2, CHR 0xA0] @ ''D'' @ [CHR 0xC4, CHR 0xAA] @ ''ZELIS ''))
      \<in> set DIESEL_ALIASES"
    by code_simp
  show ?thesis
    using h1 h2 h3 h4 h5 h6
      normalize_fuel_type_spec [of "''a95''" A95_ALIASES ascii_lower "'' Futura 95 ''"]
      normalize_fuel_type_spec [of "''a95''" A95_ALIASES ascii_lower "''Petrol''"]
      normalize_fuel_type_spec [of "''diesel''" DIESEL_ALIASES latvian_lower
        "[CHR 0xC2, CHR 0xA0] @ ''D'' @ [CHR 0xC4, CHR 0xAA] @ ''ZELIS ''"]
    by blast
qed

section \<open>The merge of the aggregator\<close>

lemma map_of_dict_set: "map_of (dict_set k v d) = (map_of d)(k \<mapsto> v)"
  by (induction d) (auto simp: fun_eq_iff)

lemma dict_get_dict_set:
  "dict_get (dict_set k v d) k' = (if k' = k then v else dict_get d k')"
  by (simp add: dict_get_def map_of_dict_set)

lemma cells_store:
  "cells (store r k x h) r' = (if r' = r then dict_set k (Some x) (cells h r) else cells h r')"
  by (simp add: store_def)

lemma next_ref_store: "next_ref (store r k x h) = next_ref h"
  by (simp add: store_def)

lemma merge_prices_other:
  "r' \<noteq> r \<Longrightarrow> cells (merge_prices r items h) r' = cells h r'"
  by (induction r items h rule: merge_prices.induct)
     (auto simp: cells_store split: option.splits)

lemma merge_prices_next_ref: "next_ref (merge_prices r items h) = next_ref h"
  by (induction r items h rule: merge_prices.induct)
     (auto simp: next_ref_store split: option.splits)

lemma dict_get_Cons:
  "dict_get ((k, v) # d) k' = (if k' = k then v else dict_get d k')"
  by (simp add: dict_get_def)

lemma dict_get_notin: "k \<notin> fst ` set d \<Longrightarrow> dict_get d k = None"
proof -
  assume "k \<notin> fst ` set d"
  then have "map_of d k = None" by (simp add: map_of_eq_None_iff)
  then show ?thesis by (simp add: dict_get_def)
qed

lemma merge_prices_get:
  "distinct (map fst items) \<Longrightarrow>
   dict_get (cells (merge_prices r items h) r) k =
     spec_merged_price (dict_get (cells h r) k) (dict_get items k)"
proof (induction r items h rule: merge_prices.induct)
  case (1 r h)
  then show ?case by (simp add: spec_merged_price_def dict_get_def)
next
  case (2 r k0 v items h)
  then have notin: "k0 \<notin> fst ` set items" and dist: "distinct (map fst items)"
    by auto
  show ?case
    using 2 notin dist
    by (auto simp: dict_get_Cons dict_get_notin cells_store dict_get_dict_set spec_merged_price_def
             min_def split: option.splits)
qed


lemma merge_prices_dominated_id:
  "dominated r items h \<Longrightarrow> merge_prices r items h = h"
  by (induction r items h rule: merge_prices.induct)
     (auto simp: dominated_def split: option.splits)

lemma merge_prices_decreases:
  "dict_get (cells h r) k = Some w \<Longrightarrow> w \<le> x \<Longrightarrow>
   \<exists>w'. dict_get (cells (merge_prices r items h) r) k = Some w' \<and> w' \<le> x"
proof (induction r items h arbitrary: w rule: merge_prices.induct)
  case (1 r h)
  then show ?case by simp
next
  case (2 r k0 v items h)
  show ?case
  proof (cases v)
    case None
    with 2 show ?thesis by simp
  next
    case (Some y)
    show ?thesis
    proof (cases "dict_get (cells h r) k0")
      case None
      with Some 2 show ?thesis
        by (cases "k = k0") (auto simp: cells_store dict_get_dict_set)
    next
      case (Some old)
      with \<open>v = Some y\<close> 2 show ?thesis
        by (cases "k = k0"; cases "y < old") (auto simp: cells_store dict_get_dict_set)
    qed
  qed
qed

lemma merge_prices_dominates:
  "dominated r items (merge_prices r items h)"
proof (induction r items h rule: merge_prices.induct)
  case (1 r h)
  then show ?case by (simp add: dominated_def)
next
  case (2 r k0 v items h)
  let ?h1 = "(case v of None \<Rightarrow> h
        | Some x \<Rightarrow>
            (case dict_get (cells h r) k0 of
               None \<Rightarrow> store r k0 x h
             | Some old \<Rightarrow> if x < old then store r k0 x h else h))"
  have step: "\<And>x. v = Some x \<Longrightarrow> \<exists>w. dict_get (cells ?h1 r) k0 = Some w \<and> w \<le> x"
    by (auto simp: cells_store dict_get_dict_set split: option.splits)
  have "\<And>x. v = Some x \<Longrightarrow>
       \<exists>w. dict_get (cells (merge_prices r items ?h1) r) k0 = Some w \<and> w \<le> x"
    using step merge_prices_decreases by blast
  with 2 show ?case
    by (simp add: dominated_def)
qed


lemma fst_merge_station:
  "fst (merge_station lower st s) =
     (case map_of (fst s) (canonical_key lower st) of
        Some e \<Rightarrow> fst s
      | None \<Rightarrow> fst s @ [(canonical_key lower st, st)])"
  by (cases s) (simp add: merge_station_def split: option.splits)

lemma snd_merge_station:
  "snd (merge_station lower st s) =
     (case map_of (fst s) (canonical_key lower st) of
        Some e \<Rightarrow> merge_prices (prices e) (cells (snd s) (prices st)) (snd s)
      | None \<Rightarrow> snd s)"
  by (cases s) (simp add: merge_station_def split: option.splits)

lemma dedup_map_of:
  "map_of (fst (dedup lower sts s)) K =
     (case map_of (fst s) K of
        Some e \<Rightarrow> Some e
      | None \<Rightarrow> find (\<lambda>x. canonical_key lower x = K) sts)"
proof (induction sts arbitrary: s)
  case Nil
  then show ?case by (simp split: option.splits)
next
  case (Cons st sts)
  show ?case
    by (auto simp: Cons fst_merge_station map_add_def split: option.splits)
qed

lemma dedup_distinct:
  "distinct (map fst (fst s)) \<Longrightarrow> distinct (map fst (fst (dedup lower sts s)))"
proof (induction sts arbitrary: s)
  case Nil
  then show ?case by simp
next
  case (Cons st sts)
  have "distinct (map fst (fst (merge_station lower st s)))"
    using Cons.prems
    by (auto simp: fst_merge_station map_of_eq_None_iff split: option.splits)
  then show ?case by (simp add: Cons.IH)
qed

lemma dedup_keys:
  "(\<forall>(k, st) \<in> set (fst s). canonical_key lower st = k) \<Longrightarrow>
   (\<forall>(k, st) \<in> set (fst (dedup lower sts s)). canonical_key lower st = k)"
proof (induction sts arbitrary: s)
  case Nil
  then show ?case by simp
next
  case (Cons st sts)
  have "\<forall>(k, st) \<in> set (fst (merge_station lower st s)). canonical_key lower st = k"
    using Cons.prems by (auto simp: fst_merge_station split: option.splits)
  then show ?case using Cons.IH by simp
qed

lemma dedup_grows: "set (fst s) \<subseteq> set (fst (dedup lower sts s))"
proof (induction sts arbitrary: s)
  case Nil
  then show ?case by simp
next
  case (Cons st sts)
  have "set (fst s) \<subseteq> set (fst (merge_station lower st s))"
    by (auto simp: fst_merge_station split: option.splits)
  with Cons.IH [of "merge_station lower st s"] show ?case by auto
qed

lemma dedup_from_input:
  "snd ` set (fst (dedup lower sts s)) \<subseteq> snd ` set (fst s) \<union> set sts"
proof (induction sts arbitrary: s)
  case Nil
  then show ?case by simp
next
  case (Cons st sts)
  have "snd ` set (fst (merge_station lower st s)) \<subseteq> snd ` set (fst s) \<union> {st}"
    by (auto simp: fst_merge_station split: option.splits)
  with Cons.IH [of "merge_station lower st s"] show ?case by auto
qed

lemma dedup_next_ref: "next_ref (snd (dedup lower sts s)) = next_ref (snd s)"
  by (induction sts arbitrary: s)
     (auto simp: snd_merge_station merge_prices_next_ref split: option.splits)

lemma dedup_frame:
  "r \<notin> prices ` snd ` set (fst (dedup lower sts s)) \<Longrightarrow>
   cells (snd (dedup lower sts s)) r = cells (snd s) r"
proof (induction sts arbitrary: s)
  case Nil
  then show ?case by simp
next
  case (Cons st sts)
  let ?s1 = "merge_station lower st s"
  from Cons.prems have out: "r \<notin> prices ` snd ` set (fst (dedup lower sts ?s1))" by simp
  then have a: "cells (snd (dedup lower sts ?s1)) r = cells (snd ?s1) r"
    by (rule Cons.IH)
  have b: "cells (snd ?s1) r = cells (snd s) r"
  proof (cases "map_of (fst s) (canonical_key lower st)")
    case None
    then show ?thesis by (simp add: snd_merge_station)
  next
    case (Some e)
    then have "(canonical_key lower st, e) \<in> set (fst s)" by (rule map_of_SomeD)
    then have "(canonical_key lower st, e) \<in> set (fst (dedup lower sts ?s1))"
      using dedup_grows [of s lower "st # sts"] by auto
    then have "prices e \<in> prices ` snd ` set (fst (dedup lower sts ?s1))" by force
    with out have "r \<noteq> prices e" by auto
    with Some show ?thesis by (simp add: snd_merge_station merge_prices_other)
  qed
  from a b show ?case by simp
qed

lemma fetch_all_fst: "fst (fetch_all lower results h) = map snd (fst (dedup lower (collect results) ([], h)))"
  by (simp add: fetch_all_def split: prod.splits)

lemma fetch_all_snd: "snd (fetch_all lower results h) = snd (dedup lower (collect results) ([], h))"
  by (simp add: fetch_all_def split: prod.splits)

lemma dedup_out_keys:
  "map (canonical_key lower) (map snd (fst (dedup lower sts ([], h)))) = map fst (fst (dedup lower sts ([], h)))"
proof -
  have "\<forall>(k, st) \<in> set (fst (dedup lower sts ([], h))). canonical_key lower st = k"
    by (rule dedup_keys) simp
  then show ?thesis by (auto simp: map_eq_conv)
qed

lemma fetch_all_distinct: "distinct (map (canonical_key lower) (fst (fetch_all lower results h)))"
proof -
  have "distinct (map fst (fst (dedup lower (collect results) ([], h))))"
    by (rule dedup_distinct) simp
  then show ?thesis by (simp only: fetch_all_fst dedup_out_keys)
qed

lemma fetch_all_first_seen:
  assumes "st \<in> set (fst (fetch_all lower results h))"
  shows "find (\<lambda>x. canonical_key lower x = canonical_key lower st) (collect results) = Some st"
proof -
  let ?u = "fst (dedup lower (collect results) ([], h))"
  from assms obtain k where k: "(k, st) \<in> set ?u"
    by (auto simp: fetch_all_fst)
  have "\<forall>(k, st) \<in> set ?u. canonical_key lower st = k"
    by (rule dedup_keys) simp
  with k have kk: "k = canonical_key lower st" by auto
  have "distinct (map fst ?u)" by (rule dedup_distinct) simp
  with k have "map_of ?u k = Some st" by simp
  then show ?thesis
    by (simp add: dedup_map_of kk)
qed

lemma fetch_all_key_set:
  "canonical_key lower ` set (fst (fetch_all lower results h)) = canonical_key lower ` set (collect results)"
proof -
  let ?u = "fst (dedup lower (collect results) ([], h))"
  have "canonical_key lower ` set (fst (fetch_all lower results h)) = set (map (canonical_key lower) (map snd ?u))"
    by (simp add: fetch_all_fst image_image)
  also have "\<dots> = fst ` set ?u" by (simp only: dedup_out_keys set_map)
  also have "\<dots> = canonical_key lower ` set (collect results)"
  proof (rule set_eqI)
    fix K
    have "K \<in> fst ` set ?u \<longleftrightarrow> map_of ?u K \<noteq> None"
      by (simp add: map_of_eq_None_iff)
    also have "\<dots> \<longleftrightarrow> find (\<lambda>x. canonical_key lower x = K) (collect results) \<noteq> None"
      by (simp add: dedup_map_of)
    also have "\<dots> \<longleftrightarrow> K \<in> canonical_key lower ` set (collect results)"
      by (auto simp: find_None_iff)
    finally show "K \<in> fst ` set ?u \<longleftrightarrow> K \<in> canonical_key lower ` set (collect results)" .
  qed
  finally show ?thesis .
qed

lemma fetch_all_pair:
  fixes h :: "('p::linorder) heap"
  assumes c: "collect results = [a, b]" and k: "canonical_key lower a = canonical_key lower b"
  shows "fetch_all lower results h = ([a], merge_prices (prices a) (cells h (prices b)) h)"
  using k by (simp add: fetch_all_def c merge_station_def)

lemma spec_merged_price_None: "spec_merged_price None v = v"
  by (cases v) (simp_all add: spec_merged_price_def)

lemma entries_refs_differ:
  assumes "distinct (map prices (map snd uniq))"
    and "map_of uniq K = Some e" and "map_of uniq K' = Some e'" and "K \<noteq> K'"
  shows "prices e \<noteq> prices e'"
proof
  assume eq: "prices e = prices e'"
  from assms(2,3) have m: "(K, e) \<in> set uniq" "(K', e') \<in> set uniq"
    by (auto dest: map_of_SomeD)
  from assms(1) have "inj_on (\<lambda>p. prices (snd p)) (set uniq)"
    by (simp add: distinct_map comp_def)
  then have "(K, e) = (K', e')"
    using inj_onD [of "\<lambda>p. prices (snd p)" "set uniq" "(K, e)" "(K', e')"] m eq by simp
  with assms(4) show False by simp
qed

lemma dedup_prices:
  fixes s :: "(key \<times> station) list \<times> ('p::linorder) heap"
  assumes "distinct (map prices (map snd (fst s) @ sts))"
    and "\<forall>x \<in> set sts. distinct (map fst (cells (snd s) (prices x)))"
    and "map_of (fst (dedup lower sts s)) K = Some e"
  shows "dict_get (cells (snd (dedup lower sts s)) (prices e)) f =
     foldl spec_merged_price
       (case map_of (fst s) K of
          Some e0 \<Rightarrow> dict_get (cells (snd s) (prices e)) f
        | None \<Rightarrow> None)
       (map (\<lambda>x. dict_get (cells (snd s) (prices x)) f)
          (filter (\<lambda>x. canonical_key lower x = K) sts))"
  using assms
proof (induction sts arbitrary: s)
  case Nil
  then show ?case by simp
next
  case (Cons x xs)
  let ?Kx = "canonical_key lower x"
  let ?s1 = "merge_station lower x s"
  let ?get = "\<lambda>h y. dict_get (cells h (prices y)) f"
  from Cons.prems(3) have fin: "map_of (fst (dedup lower xs ?s1)) K = Some e" by simp
  show ?case
  proof (cases "map_of (fst s) ?Kx")
    case None
    then have f1: "fst ?s1 = fst s @ [(?Kx, x)]" and h1: "snd ?s1 = snd s"
      by (simp_all add: fst_merge_station snd_merge_station)
    have a: "distinct (map prices (map snd (fst ?s1) @ xs))"
      using Cons.prems(1) unfolding f1 by simp
    have b: "\<forall>y \<in> set xs. distinct (map fst (cells (snd ?s1) (prices y)))"
      using Cons.prems(2) unfolding h1 by simp
    note ih = Cons.IH [OF a b fin]
    show ?thesis
    proof (cases "K = ?Kx")
      case True
      have "map_of (fst ?s1) K = Some x"
        unfolding f1 using None True by (simp add: map_add_def)
      moreover from this fin have "e = x"
        by (simp add: dedup_map_of)
      ultimately show ?thesis
        using ih None True by (simp add: h1 spec_merged_price_None split: option.splits)
    next
      case False
      then have "map_of (fst ?s1) K = map_of (fst s) K"
        unfolding f1 by (auto simp: map_add_def split: option.splits)
      with ih False show ?thesis by (simp add: h1 split: option.splits)
    qed
  next
    case (Some e0)
    let ?h1 = "merge_prices (prices e0) (cells (snd s) (prices x)) (snd s)"
    from Some have f1: "fst ?s1 = fst s" and h1: "snd ?s1 = ?h1"
      by (simp_all add: fst_merge_station snd_merge_station)
    from Some have e0_in: "e0 \<in> snd ` set (fst s)"
      by (force dest: map_of_SomeD)
    have other: "prices y \<noteq> prices e0" if "y \<in> set (x # xs)" for y
      using Cons.prems(1) e0_in that by auto
    have keep: "cells ?h1 (prices y) = cells (snd s) (prices y)" if "y \<in> set (x # xs)" for y
      using other [OF that] by (simp add: merge_prices_other)
    have a: "distinct (map prices (map snd (fst ?s1) @ xs))"
      using Cons.prems(1) unfolding f1 by simp
    have b: "\<forall>y \<in> set xs. distinct (map fst (cells (snd ?s1) (prices y)))"
      using Cons.prems(2) keep unfolding h1 by simp
    note ih = Cons.IH [OF a b fin]
    have lst: "map (\<lambda>y. dict_get (cells ?h1 (prices y)) f) (filter P xs)
        = map (\<lambda>y. dict_get (cells (snd s) (prices y)) f) (filter P xs)" for P
      using keep by (intro map_cong) auto
    have dx: "distinct (map fst (cells (snd s) (prices x)))"
      using Cons.prems(2) by simp
    show ?thesis
    proof (cases "K = ?Kx")
      case True
      with Some fin have e: "e = e0" by (simp add: dedup_map_of f1)
      have "dict_get (cells ?h1 (prices e0)) f =
          spec_merged_price (dict_get (cells (snd s) (prices e0)) f)
            (dict_get (cells (snd s) (prices x)) f)"
        using dx by (rule merge_prices_get)
      with ih Some True e show ?thesis
        by (simp add: f1 h1 lst split: option.splits)
    next
      case False
      show ?thesis
      proof (cases "map_of (fst s) K")
        case None
        with ih False show ?thesis by (simp add: f1 h1 lst split: option.splits)
      next
        case (Some e')
        with fin have e: "e = e'" by (simp add: dedup_map_of f1)
        have "distinct (map prices (map snd (fst s)))"
          using Cons.prems(1) by simp
        then have "prices e' \<noteq> prices e0"
          using Some \<open>map_of (fst s) ?Kx = Some e0\<close> False by (rule entries_refs_differ)
        then have "cells ?h1 (prices e') = cells (snd s) (prices e')"
          by (simp add: merge_prices_other)
        with ih False Some e show ?thesis by (simp add: f1 h1 lst split: option.splits)
      qed
    qed
  qed
qed

lemma fetch_all_prices:
  fixes h :: "('p::linorder) heap"
  assumes "distinct (map prices (collect results))"
    and "\<forall>x \<in> set (collect results). distinct (map fst (cells h (prices x)))"
    and "st \<in> set (fst (fetch_all lower results h))"
  shows "dict_get (cells (snd (fetch_all lower results h)) (prices st)) fuel =
     foldl spec_merged_price None
       (map (\<lambda>x. dict_get (cells h (prices x)) fuel)
          (filter (\<lambda>x. canonical_key lower x = canonical_key lower st) (collect results)))"
proof -
  let ?u = "fst (dedup lower (collect results) ([], h))"
  from assms(3) obtain k where k: "(k, st) \<in> set ?u"
    by (auto simp: fetch_all_fst)
  have "\<forall>(k, st) \<in> set ?u. canonical_key lower st = k"
    by (rule dedup_keys) simp
  with k have kk: "k = canonical_key lower st" by auto
  have "distinct (map fst ?u)" by (rule dedup_distinct) simp
  with k kk have m: "map_of ?u (canonical_key lower st) = Some st" by simp
  from dedup_prices [of "([], h)" "collect results" lower "canonical_key lower st" st fuel] assms(1,2) m
  show ?thesis by (simp add: fetch_all_snd)
qed

lemma ex_keys: "canonical_key ascii_lower example_first = canonical_key ascii_lower example_second"
  by code_simp

lemma ex_collect: "collect [Inr [example_first], Inl ClientError, Inr [example_second]] = [example_first, example_second]"
  by simp

lemma ex_distinct: "distinct (map fst (cells example_heap (prices example_second)))"
  by (simp add: example_heap_def example_second_def)

text \<open>
  Claim C1. For every working list, the records that \<^verbatim>\<open>fetch_all\<close> returns have pairwise
  different canonical keys, every canonical key of the working list is the key of one
  of them, and each is the first record of the working list with its key, so that its
  name, address, source and timestamp are those of the first-seen record. When the
  records of the working list have price dictionaries of their own, the price that a
  returned record has for a fuel is what the merge rule of the specification gives
  when it is applied, in the order of the working list, to the prices of all records with
  the key of that record: a price is adopted where there was none and the lower price
  is kept where there were two. For a working list of two records with equal keys
  this is the rule applied to the first record's price and the incoming one.
\<close>

theorem fetch_all_merges_equal_keys:
  fixes h :: "('p::linorder) heap"
  shows "distinct (map (canonical_key lower) (fst (fetch_all lower results h))) \<and>
    canonical_key lower ` set (fst (fetch_all lower results h))
      = canonical_key lower ` set (collect results) \<and>
    (\<forall>st \<in> set (fst (fetch_all lower results h)).
        find (\<lambda>x. canonical_key lower x = canonical_key lower st) (collect results) = Some st) \<and>
    (distinct (map prices (collect results)) \<and>
     (\<forall>x \<in> set (collect results). distinct (map fst (cells h (prices x)))) \<longrightarrow>
       (\<forall>st \<in> set (fst (fetch_all lower results h)). \<forall>fuel.
          dict_get (cells (snd (fetch_all lower results h)) (prices st)) fuel =
            foldl spec_merged_price None
              (map (\<lambda>x. dict_get (cells h (prices x)) fuel)
                 (filter (\<lambda>x. canonical_key lower x = canonical_key lower st)
                    (collect results))))) \<and>
    (collect results = [a, b] \<and> canonical_key lower a = canonical_key lower b \<and>
     distinct (map fst (cells h (prices b))) \<longrightarrow>
       fst (fetch_all lower results h) = [a] \<and>
       (\<forall>fuel. dict_get (cells (snd (fetch_all lower results h)) (prices a)) fuel =
                 spec_merged_price (dict_get (cells h (prices a)) fuel)
                              (dict_get (cells h (prices b)) fuel)))"
proof (intro conjI ballI impI allI)
  show "distinct (map (canonical_key lower) (fst (fetch_all lower results h)))"
    by (rule fetch_all_distinct)
next
  show "canonical_key lower ` set (fst (fetch_all lower results h))
      = canonical_key lower ` set (collect results)"
    by (rule fetch_all_key_set)
next
  fix st assume "st \<in> set (fst (fetch_all lower results h))"
  then show "find (\<lambda>x. canonical_key lower x = canonical_key lower st) (collect results) = Some st"
    by (rule fetch_all_first_seen)
next
  fix st fuel
  assume "distinct (map prices (collect results)) \<and>
     (\<forall>x \<in> set (collect results). distinct (map fst (cells h (prices x))))"
    and "st \<in> set (fst (fetch_all lower results h))"
  then show "dict_get (cells (snd (fetch_all lower results h)) (prices st)) fuel =
            foldl spec_merged_price None
              (map (\<lambda>x. dict_get (cells h (prices x)) fuel)
                 (filter (\<lambda>x. canonical_key lower x = canonical_key lower st)
                    (collect results)))"
    using fetch_all_prices by blast
next
  assume a: "collect results = [a, b] \<and> canonical_key lower a = canonical_key lower b \<and>
     distinct (map fst (cells h (prices b)))"
  then show "fst (fetch_all lower results h) = [a]"
    by (simp add: fetch_all_pair)
  from a show "dict_get (cells (snd (fetch_all lower results h)) (prices a)) fuel =
                 spec_merged_price (dict_get (cells h (prices a)) fuel)
                              (dict_get (cells h (prices b)) fuel)" for fuel
    by (simp add: fetch_all_pair merge_prices_get)
qed

lemma example_collect:
  "collect example_results = [example_first, example_other, example_second, example_third]"
  by (simp add: example_results_def)

lemma example_out:
  "fst (fetch_all ascii_lower example_results example_heap4) = [example_first, example_other]"
  by code_simp

lemma example_same_key:
  "filter (\<lambda>x. canonical_key ascii_lower x = canonical_key ascii_lower example_first)
     [example_first, example_other, example_second, example_third]
   = [example_first, example_second, example_third]"
  by code_simp

lemma example_refs:
  "distinct (map prices (collect example_results)) \<and>
   (\<forall>x \<in> set (collect example_results). distinct (map fst (cells example_heap4 (prices x))))"
  unfolding example_collect
  by (simp add: example_first_def example_second_def example_third_def example_other_def
      example_heap4_def)


theorem fetch_all_merges_equal_keys_witness:
  "fst (fetch_all ascii_lower example_results example_heap4) = [example_first, example_other] \<and>
   find (\<lambda>x. canonical_key ascii_lower x = canonical_key ascii_lower example_first)
     (collect example_results) = Some example_first \<and>
   dict_get (cells (snd (fetch_all ascii_lower example_results example_heap4))
     (prices example_first)) ''a95'' = Some (29 / 20) \<and>
   dict_get (cells (snd (fetch_all ascii_lower example_results example_heap4))
     (prices example_first)) ''diesel'' = Some (3 / 2) \<and>
   dict_get (cells (snd (fetch_all ascii_lower example_results example_heap4))
     (prices example_other)) ''a95'' = Some (7 / 5) \<and>
   fst (fetch_all ascii_lower [Inr [example_first], Inl ClientError, Inr [example_second]]
          example_heap) = [example_first] \<and>
   dict_get (cells (snd (fetch_all ascii_lower
                           [Inr [example_first], Inl ClientError, Inr [example_second]]
                           example_heap)) (prices example_first)) ''diesel'' = Some (8 / 5)"
proof -
  note t = fetch_all_merges_equal_keys [of ascii_lower example_results example_heap4]
  have m1: "example_first \<in> set (fst (fetch_all ascii_lower example_results example_heap4))"
    and m2: "example_other \<in> set (fst (fetch_all ascii_lower example_results example_heap4))"
    by (simp_all add: example_out)
  from t m1 have f: "find (\<lambda>x. canonical_key ascii_lower x = canonical_key ascii_lower example_first)
     (collect example_results) = Some example_first"
    by blast
  from t example_refs m1 m2
  have pr: "dict_get (cells (snd (fetch_all ascii_lower example_results example_heap4)) (prices st)) fuel =
      foldl spec_merged_price None
        (map (\<lambda>x. dict_get (cells example_heap4 (prices x)) fuel)
           (filter (\<lambda>x. canonical_key ascii_lower x = canonical_key ascii_lower st)
              (collect example_results)))"
    if "st = example_first \<or> st = example_other" for st fuel
    using that by blast
  have other_key:
    "filter (\<lambda>x. canonical_key ascii_lower x = canonical_key ascii_lower example_other)
       [example_first, example_other, example_second, example_third] = [example_other]"
    by code_simp
  have a95: "dict_get (cells (snd (fetch_all ascii_lower example_results example_heap4))
     (prices example_first)) ''a95'' = Some (29 / 20)"
    by (subst pr, simp, unfold example_collect example_same_key)
       (simp add: example_first_def example_second_def example_third_def example_heap4_def
          dict_get_def spec_merged_price_def)
  have diesel: "dict_get (cells (snd (fetch_all ascii_lower example_results example_heap4))
     (prices example_first)) ''diesel'' = Some (3 / 2)"
    by (subst pr, simp, unfold example_collect example_same_key)
       (simp add: example_first_def example_second_def example_third_def example_heap4_def
          dict_get_def spec_merged_price_def)
  have o95: "dict_get (cells (snd (fetch_all ascii_lower example_results example_heap4))
     (prices example_other)) ''a95'' = Some (7 / 5)"
    by (subst pr, simp, unfold example_collect other_key)
       (simp add: example_other_def example_heap4_def dict_get_def spec_merged_price_def)
  let ?rs = "[Inr [example_first], Inl ClientError, Inr [example_second]]"
  note t2 = fetch_all_merges_equal_keys [of ascii_lower ?rs example_heap example_first example_second]
  have p: "collect ?rs = [example_first, example_second] \<and>
      canonical_key ascii_lower example_first = canonical_key ascii_lower example_second \<and>
      distinct (map fst (cells example_heap (prices example_second)))"
    using ex_keys ex_collect ex_distinct by simp
  from t2 p have out: "fst (fetch_all ascii_lower ?rs example_heap) = [example_first]"
    by blast
  from t2 p have pr2: "dict_get (cells (snd (fetch_all ascii_lower ?rs example_heap)) (prices example_first)) fuel =
                 spec_merged_price (dict_get (cells example_heap (prices example_first)) fuel)
                              (dict_get (cells example_heap (prices example_second)) fuel)" for fuel
    by blast
  have d2: "dict_get (cells (snd (fetch_all ascii_lower ?rs example_heap)) (prices example_first)) ''diesel'' = Some (8 / 5)"
    unfolding pr2
    by (simp add: example_heap_def example_first_def example_second_def dict_get_def spec_merged_price_def)
  from example_out f a95 diesel o95 out d2 show ?thesis by blast
qed

lemma dominated_self:
  assumes "distinct (map fst d)" and "cells h r = d"
  shows "dominated r d h"
  unfolding dominated_def
proof (intro ballI, clarify)
  fix k x assume "(k, Some x) \<in> set d"
  with assms(1) have "map_of d k = Some (Some x)" by simp
  then have "dict_get (cells h r) k = Some x" by (simp add: dict_get_def assms(2))
  then show "\<exists>w. dict_get (cells h r) k = Some w \<and> w \<le> x" by simp
qed

lemma merge_station_again:
  fixes s :: "(key \<times> station) list \<times> ('p::linorder) heap"
  assumes d: "distinct (map fst (cells (snd s) (prices st)))"
    and k: "canonical_key lower st' = canonical_key lower st"
    and c: "cells (snd (merge_station lower st s)) (prices st') = cells (snd s) (prices st)"
  shows "merge_station lower st' (merge_station lower st s) = merge_station lower st s"
proof (cases s)
  case (Pair uniq h)
  show ?thesis
  proof (cases "map_of uniq (canonical_key lower st)")
    case None
    then have s1: "merge_station lower st s = (uniq @ [(canonical_key lower st, st)], h)"
      by (simp add: Pair merge_station_def)
    from c s1 Pair have eq: "cells h (prices st') = cells h (prices st)" by simp
    from d Pair have "dominated (prices st) (cells h (prices st)) h"
      by (simp add: dominated_self)
    then have "merge_prices (prices st) (cells h (prices st)) h = h"
      by (rule merge_prices_dominated_id)
    with None show ?thesis
      unfolding s1 by (simp add: merge_station_def k eq map_add_def)
  next
    case (Some e)
    let ?h1 = "merge_prices (prices e) (cells h (prices st)) h"
    from Some have s1: "merge_station lower st s = (uniq, ?h1)"
      by (simp add: Pair merge_station_def)
    from c s1 Pair have eq: "cells ?h1 (prices st') = cells h (prices st)" by simp
    have "dominated (prices e) (cells h (prices st)) ?h1"
      by (rule merge_prices_dominates)
    then have "merge_prices (prices e) (cells h (prices st)) ?h1 = ?h1"
      by (rule merge_prices_dominated_id)
    with Some show ?thesis
      unfolding s1 by (simp add: merge_station_def k eq)
  qed
qed

lemma merge_station_keeps_own:
  fixes s :: "(key \<times> station) list \<times> ('p::linorder) heap"
  assumes d: "distinct (map fst (cells (snd s) (prices st)))"
  shows "cells (snd (merge_station lower st s)) (prices st) = cells (snd s) (prices st)"
proof (cases "map_of (fst s) (canonical_key lower st)")
  case None
  then show ?thesis by (simp add: snd_merge_station)
next
  case (Some e)
  show ?thesis
  proof (cases "prices e = prices st")
    case True
    from d have "dominated (prices st) (cells (snd s) (prices st)) (snd s)"
      by (simp add: dominated_self)
    then have "merge_prices (prices st) (cells (snd s) (prices st)) (snd s) = snd s"
      by (rule merge_prices_dominated_id)
    with Some True show ?thesis by (simp add: snd_merge_station)
  next
    case False
    with Some show ?thesis by (simp add: snd_merge_station merge_prices_other)
  qed
qed

text \<open>
  Claim C6. Merging a record whose price dictionary is well formed into any dataset state
  and then merging it again, or merging then a record with the same canonical key and the
  same content, leaves the dataset exactly as the first merge left it.
\<close>

theorem merge_station_idempotent:
  fixes s :: "(key \<times> station) list \<times> ('p::linorder) heap"
  assumes "distinct (map fst (cells (snd s) (prices st)))"
  shows "merge_station lower st (merge_station lower st s) = merge_station lower st s \<and>
    (\<forall>st'. canonical_key lower st' = canonical_key lower st \<and>
           cells (snd (merge_station lower st s)) (prices st') = cells (snd s) (prices st)
       \<longrightarrow> merge_station lower st' (merge_station lower st s) = merge_station lower st s)"
  using assms merge_station_again merge_station_keeps_own by blast

theorem merge_station_idempotent_witness:
  "merge_station ascii_lower example_second
     (merge_station ascii_lower example_second ([(canonical_key ascii_lower example_first, example_first)], example_heap)) =
   merge_station ascii_lower example_second ([(canonical_key ascii_lower example_first, example_first)], example_heap)"
proof -
  have "distinct (map fst (cells (snd ([(canonical_key ascii_lower example_first, example_first)], example_heap))
          (prices example_second)))"
    by (simp add: example_heap_def example_second_def)
  then show ?thesis
    using merge_station_idempotent
      [of "([(canonical_key ascii_lower example_first, example_first)], example_heap)" example_second
         ascii_lower]
    by blast
qed


text \<open>
  Claim C9, as stated, fails: the first-seen record of a key is an adapter's record, and
  the merge writes into its price dictionary in place.
\<close>

theorem fetch_all_mutates_first_seen:
  "cells (snd (fetch_all ascii_lower [Inr [example_first, example_second]] example_heap)) (prices example_first)
     = [(''a95'', Some (29 / 20)), (''diesel'', Some (8 / 5))] \<and>
   cells example_heap (prices example_first) = [(''a95'', Some (3 / 2))] \<and>
   cells (snd (fetch_all ascii_lower [Inr [example_first, example_second]] example_heap)) (prices example_first)
     \<noteq> cells example_heap (prices example_first)"
proof -
  have k: "canonical_key ascii_lower example_first = canonical_key ascii_lower example_second" by code_simp
  have "fetch_all ascii_lower [Inr [example_first, example_second]] example_heap =
      ([example_first], merge_prices (prices example_first)
          (cells example_heap (prices example_second)) example_heap)"
    by (rule fetch_all_pair) (simp_all add: k)
  then show ?thesis
    by (simp add: example_heap_def example_first_def example_second_def store_def dict_get_def)
qed

text \<open>
  Claim C9, amended. The merge creates no record and no dictionary: it returns records of
  the working list, and it changes no price dictionary other than those of the records
  it returns, which are the first-seen records updated in place.
\<close>

theorem fetch_all_frame:
  fixes h :: "('p::linorder) heap"
  shows "set (fst (fetch_all lower results h)) \<subseteq> set (collect results) \<and>
    next_ref (snd (fetch_all lower results h)) = next_ref h \<and>
    (\<forall>r. r \<notin> prices ` set (fst (fetch_all lower results h)) \<longrightarrow>
         cells (snd (fetch_all lower results h)) r = cells h r)"
proof (intro conjI allI impI)
  show "set (fst (fetch_all lower results h)) \<subseteq> set (collect results)"
    using dedup_from_input [of lower "collect results" "([], h)"]
    by (simp add: fetch_all_fst)
  show "next_ref (snd (fetch_all lower results h)) = next_ref h"
    by (simp add: fetch_all_snd dedup_next_ref)
  fix r assume "r \<notin> prices ` set (fst (fetch_all lower results h))"
  then have "r \<notin> prices ` snd ` set (fst (dedup lower (collect results) ([], h)))"
    by (simp add: fetch_all_fst)
  then show "cells (snd (fetch_all lower results h)) r = cells h r"
    using dedup_frame [of r lower "collect results" "([], h)"]
    by (simp add: fetch_all_snd)
qed

theorem fetch_all_frame_witness:
  "cells (snd (fetch_all ascii_lower [Inr [example_first, example_second]] example_heap)) (prices example_second)
     = [(''a95'', Some (29 / 20)), (''diesel'', Some (8 / 5))] \<and>
   fst (fetch_all ascii_lower [Inr [example_first, example_second]] example_heap) = [example_first] \<and>
   next_ref (snd (fetch_all ascii_lower [Inr [example_first, example_second]] example_heap)) = 2"
proof -
  let ?rs = "[Inr [example_first, example_second]] :: (exn + station list) list"
  have k: "canonical_key ascii_lower example_first = canonical_key ascii_lower example_second" by code_simp
  have out: "fst (fetch_all ascii_lower ?rs example_heap) = [example_first]"
    by (simp add: fetch_all_pair k)
  have "prices example_second \<notin> prices ` set (fst (fetch_all ascii_lower ?rs example_heap))"
    unfolding out by (simp add: example_first_def example_second_def)
  with fetch_all_frame [of ascii_lower ?rs example_heap]
  have "cells (snd (fetch_all ascii_lower ?rs example_heap)) (prices example_second)
      = cells example_heap (prices example_second)"
    and "next_ref (snd (fetch_all ascii_lower ?rs example_heap)) = next_ref example_heap"
    by blast+
  with out show ?thesis
    by (simp add: example_heap_def example_second_def)
qed


lemma collect_raise_eq_empty:
  "collect (results[i := Inl e]) = collect (results[i := Inr []])"
proof (induction results arbitrary: i)
  case Nil
  then show ?case by simp
next
  case (Cons res results)
  show ?case
  proof (cases i)
    case 0
    then show ?thesis by simp
  next
    case (Suc j)
    with Cons [of j] show ?thesis by (cases res) simp_all
  qed
qed

lemma collect_raise_subset:
  "set (collect (results[i := Inl e])) \<subseteq> set (collect results)"
proof (induction results arbitrary: i)
  case Nil
  then show ?case by simp
next
  case (Cons res results)
  show ?case
  proof (cases i)
    case 0
    then show ?thesis by (cases res) auto
  next
    case (Suc j)
    with Cons [of j] show ?thesis by (cases res) auto
  qed
qed

lemma collect_all_failed:
  "\<forall>res \<in> set results. isl res \<or> res = Inr [] \<Longrightarrow> collect results = []"
proof (induction results)
  case Nil
  then show ?case by simp
next
  case (Cons res results)
  then show ?case by (cases res) auto
qed

lemma fetch_all_length:
  "length (fst (fetch_all lower results h)) = card (canonical_key lower ` set (collect results))"
proof -
  have "length (fst (fetch_all lower results h)) = length (map (canonical_key lower) (fst (fetch_all lower results h)))"
    by simp
  also have "\<dots> = card (set (map (canonical_key lower) (fst (fetch_all lower results h))))"
    using fetch_all_distinct [of lower results h] by (simp only: distinct_card)
  also have "\<dots> = card (canonical_key lower ` set (collect results))"
    by (simp only: set_map fetch_all_key_set)
  finally show ?thesis .
qed

text \<open>
  Claim C4. An adapter that raised counts as one that returned the empty list; replacing
  an adapter's result by a failure never adds a canonical key to the result nor makes it
  longer; and when every adapter failed or returned nothing, the result is the empty
  list and the store is untouched.
\<close>

theorem fetch_all_adapter_failure:
  fixes h :: "('p::linorder) heap"
  shows "fetch_all lower (results[i := Inl e]) h = fetch_all lower (results[i := Inr []]) h \<and>
    canonical_key lower ` set (fst (fetch_all lower (results[i := Inl e]) h))
      \<subseteq> canonical_key lower ` set (fst (fetch_all lower results h)) \<and>
    length (fst (fetch_all lower (results[i := Inl e]) h)) \<le> length (fst (fetch_all lower results h)) \<and>
    ((\<forall>res \<in> set results. isl res \<or> res = Inr []) \<longrightarrow> fetch_all lower results h = ([], h))"
proof (intro conjI impI)
  show "fetch_all lower (results[i := Inl e]) h = fetch_all lower (results[i := Inr []]) h"
    by (simp add: fetch_all_def collect_raise_eq_empty)
  have sub: "canonical_key lower ` set (collect (results[i := Inl e]))
      \<subseteq> canonical_key lower ` set (collect results)"
    using collect_raise_subset [of results i e] by blast
  then show "canonical_key lower ` set (fst (fetch_all lower (results[i := Inl e]) h))
      \<subseteq> canonical_key lower ` set (fst (fetch_all lower results h))"
    by (simp only: fetch_all_key_set)
  show "length (fst (fetch_all lower (results[i := Inl e]) h)) \<le> length (fst (fetch_all lower results h))"
    unfolding fetch_all_length using sub by (simp add: card_mono)
  assume "\<forall>res \<in> set results. isl res \<or> res = Inr []"
  then have "collect results = []" by (rule collect_all_failed)
  then show "fetch_all lower results h = ([], h)" by (simp add: fetch_all_def)
qed

theorem fetch_all_adapter_failure_witness:
  "fetch_all ascii_lower [Inl ClientError, Inr [], Inl TypeError] example_heap = ([], example_heap) \<and>
   fetch_all ascii_lower ([Inr [example_first], Inr [example_second]][1 := Inl ClientError]) example_heap
     = fetch_all ascii_lower ([Inr [example_first], Inr [example_second]][1 := Inr []]) example_heap"
proof -
  have "\<forall>res \<in> set [Inl ClientError, Inr [], Inl TypeError :: exn + station list].
          isl res \<or> res = Inr []"
    by simp
  then show ?thesis
    using fetch_all_adapter_failure [of ascii_lower "[Inl ClientError, Inr [], Inl TypeError]" 0 ClientError example_heap]
      fetch_all_adapter_failure [of ascii_lower "[Inr [example_first], Inr [example_second]]" 1 ClientError example_heap]
    by blast
qed


section \<open>The ranking query\<close>

lemma priced_rows_Cons:
  "priced_rows (st # stations) h fuel =
     (case dict_get (cells h (prices st)) fuel of
        None \<Rightarrow> priced_rows stations h fuel
      | Some price \<Rightarrow> (price, st) # priced_rows stations h fuel)"
  by (simp add: priced_rows_def split: option.splits)

lemma priced_rows_Nil: "priced_rows [] h fuel = []"
  by (simp add: priced_rows_def)

lemma priced_rows_mem:
  "(p, st) \<in> set (priced_rows stations h fuel) \<longleftrightarrow>
     st \<in> set stations \<and> dict_get (cells h (prices st)) fuel = Some p"
  by (induction stations) (auto simp: priced_rows_Cons priced_rows_Nil split: option.splits)

lemma priced_rows_at_price:
  "map snd (filter (\<lambda>row. fst row = p) (priced_rows stations h fuel)) =
     filter (\<lambda>st. dict_get (cells h (prices st)) fuel = Some p) stations"
  by (induction stations) (auto simp: priced_rows_Cons priced_rows_Nil split: option.splits)

lemma priced_rows_empty:
  "\<forall>st \<in> set stations. dict_get (cells h (prices st)) fuel = None \<Longrightarrow>
   priced_rows stations h fuel = []"
  by (induction stations) (auto simp: priced_rows_Cons priced_rows_Nil)

lemma top_rows_take:
  "0 < n \<Longrightarrow> top_rows stations h fuel n = take (nat n) (sort_key fst (priced_rows stations h fuel))"
  by (simp add: top_rows_def slice_to_def Let_def)

text \<open>
  Claim C2. For a positive \<open>n\<close>, every row of the answer pairs a station of the dataset
  with the price its dictionary has for the fuel; there are at most \<open>n\<close> rows; the
  prices do not decrease along the answer; the stations shown at any one price appear
  in the order of the dataset; and the answer is empty when no station has the fuel
  priced.
\<close>

theorem top_rows_spec:
  fixes h :: "('p::linorder) heap"
  assumes "0 < n"
  shows "(\<forall>(p, st) \<in> set (top_rows stations h fuel n).
            st \<in> set stations \<and> dict_get (cells h (prices st)) fuel = Some p) \<and>
    int (length (top_rows stations h fuel n)) \<le> n \<and>
    sorted (map fst (top_rows stations h fuel n)) \<and>
    (\<forall>p. prefix (map snd (filter (\<lambda>row. fst row = p) (top_rows stations h fuel n)))
                (filter (\<lambda>st. dict_get (cells h (prices st)) fuel = Some p) stations)) \<and>
    ((\<forall>st \<in> set stations. dict_get (cells h (prices st)) fuel = None)
        \<longrightarrow> top_rows stations h fuel n = [])"
proof (intro conjI allI impI)
  let ?rows = "priced_rows stations h fuel"
  note t = top_rows_take [OF assms, of stations h fuel]
  show "\<forall>(p, st) \<in> set (top_rows stations h fuel n).
            st \<in> set stations \<and> dict_get (cells h (prices st)) fuel = Some p"
  proof (clarify)
    fix p st assume "(p, st) \<in> set (top_rows stations h fuel n)"
    then have "(p, st) \<in> set (sort_key fst ?rows)"
      unfolding t by (rule in_set_takeD)
    then have "(p, st) \<in> set ?rows" by simp
    then show "st \<in> set stations \<and> dict_get (cells h (prices st)) fuel = Some p"
      by (simp add: priced_rows_mem)
  qed
  show "int (length (top_rows stations h fuel n)) \<le> n"
    unfolding t using assms by simp
  show "sorted (map fst (top_rows stations h fuel n))"
    unfolding t by (simp add: take_map [symmetric] sorted_wrt_take)
  show "prefix (map snd (filter (\<lambda>row. fst row = p) (top_rows stations h fuel n)))
                (filter (\<lambda>st. dict_get (cells h (prices st)) fuel = Some p) stations)" for p
  proof -
    have "prefix (take (nat n) (sort_key fst ?rows)) (sort_key fst ?rows)"
      by (rule take_is_prefix)
    then have "prefix (filter (\<lambda>row. fst row = p) (take (nat n) (sort_key fst ?rows)))
        (filter (\<lambda>row. fst row = p) (sort_key fst ?rows))"
      by (rule filter_mono_prefix)
    then have "prefix (filter (\<lambda>row. fst row = p) (top_rows stations h fuel n))
        (filter (\<lambda>row. fst row = p) ?rows)"
      by (simp only: t sort_key_stable)
    then have "prefix (map snd (filter (\<lambda>row. fst row = p) (top_rows stations h fuel n)))
        (map snd (filter (\<lambda>row. fst row = p) ?rows))"
      by (rule map_mono_prefix)
    then show ?thesis by (simp only: priced_rows_at_price)
  qed
  assume "\<forall>st \<in> set stations. dict_get (cells h (prices st)) fuel = None"
  then have "?rows = []" by (rule priced_rows_empty)
  then show "top_rows stations h fuel n = []" by (simp add: top_rows_def)
qed

theorem top_rows_spec_witness:
  "top_rows [example_first, example_second] example_heap ''lpg'' 1 = [] \<and>
   int (length (top_rows [example_first, example_second] example_heap ''a95'' 1)) \<le> 1 \<and>
   top_rows [example_first, example_second] example_heap ''a95'' 1 = [(29 / 20, example_second)] \<and>
   example_second \<in> set [example_first, example_second] \<and>
   dict_get (cells example_heap (prices example_second)) ''a95'' = Some (29 / 20)"
proof -
  have n: "(0::int) < 1" by simp
  note t = top_rows_spec [OF n, of "[example_first, example_second]" example_heap]
  have none: "\<forall>st \<in> set [example_first, example_second].
      dict_get (cells example_heap (prices st)) ''lpg'' = None"
    by (simp add: example_heap_def example_first_def example_second_def dict_get_def)
  have v: "top_rows [example_first, example_second] example_heap ''a95'' 1 = [(29 / 20, example_second)]"
    by (simp add: top_rows_def priced_rows_def slice_to_def List.map_filter_simps dict_get_def
        example_heap_def example_first_def example_second_def)
  then have "(29 / 20, example_second) \<in> set (top_rows [example_first, example_second] example_heap ''a95'' 1)"
    by simp
  with t [of "''a95''"] have "example_second \<in> set [example_first, example_second] \<and>
      dict_get (cells example_heap (prices example_second)) ''a95'' = Some (29 / 20)"
    by blast
  with t [of "''lpg''"] t [of "''a95''"] none v show ?thesis by blast
qed


section \<open>The price parser\<close>

lemma is_digit_plain:
  "is_digit c \<Longrightarrow> c \<noteq> CHR '','' \<and> c \<noteq> CHR ''-'' \<and> c \<noteq> CHR ''+''"
  by (auto simp: is_digit_def)

lemma whitespace_ends:
  "list_all (\<lambda>w. w \<noteq> [] \<and> \<not> is_digit (hd w) \<and> \<not> is_digit (last w)) WHITESPACE"
  by code_simp

lemma blank_len_digit:
  assumes "is_digit a"
  shows "blank_len WHITESPACE (a # r) = 0"
proof -
  have "\<not> prefix w (a # r)" if "w \<in> set WHITESPACE" for w
  proof
    assume p: "prefix w (a # r)"
    from that whitespace_ends have w: "w \<noteq> []" "\<not> is_digit (hd w)"
      by (auto simp: list_all_iff)
    from p w(1) have "hd w = a" by (cases w) auto
    with w(2) assms show False by simp
  qed
  then have "find (\<lambda>w. prefix w (a # r)) WHITESPACE = None"
    by (simp add: find_None_iff)
  then show ?thesis by (simp add: blank_len_def)
qed

lemma blank_len_rev_digit:
  assumes "is_digit a"
  shows "blank_len (map rev WHITESPACE) (a # r) = 0"
proof -
  have "\<not> prefix w (a # r)" if "w \<in> set (map rev WHITESPACE)" for w
  proof
    assume p: "prefix w (a # r)"
    from that obtain v where v: "v \<in> set WHITESPACE" "w = rev v" by auto
    with whitespace_ends have w: "v \<noteq> []" "\<not> is_digit (last v)"
      by (auto simp: list_all_iff)
    then have "w \<noteq> []" "hd w = last v" using v(2) by (simp_all add: hd_rev)
    with p have "last v = a" by (cases w) auto
    with w(2) assms show False by simp
  qed
  then have "find (\<lambda>w. prefix w (a # r)) (map rev WHITESPACE) = None"
    by (simp only: find_None_iff) blast
  then show ?thesis by (simp add: blank_len_def)
qed

lemma strip_id:
  assumes "s \<noteq> []" "is_digit (hd s)" "is_digit (last s)"
  shows "py_strip s = s"
proof -
  from assms obtain a r where s: "s = a # r" and a: "is_digit a" by (cases s) auto
  have f: "strip_front WHITESPACE s = s"
    unfolding s using blank_len_digit [OF a] by (simp add: strip_front.simps)
  from assms obtain b q where rs: "rev s = b # q" and b: "is_digit b"
    by (cases "rev s") (auto simp: hd_rev)
  have "strip_front (map rev WHITESPACE) (rev s) = rev s"
    unfolding rs using blank_len_rev_digit [OF b] by (simp add: strip_front.simps)
  with f show ?thesis by (simp add: py_strip_def)
qed

lemma price_token_chars:
  assumes "price_token t"
  shows "t \<noteq> []" and "is_digit (hd t)" and "is_digit (last t)"
    and "\<forall>c \<in> set t. is_digit c \<or> c = CHR ''.''"
proof -
  let ?ip = "takeWhile is_digit t" and ?r = "dropWhile is_digit t"
  have split: "t = ?ip @ ?r" by simp
  from assms have ip: "?ip \<noteq> []" by (simp add: price_token_def)
  then show ne: "t \<noteq> []" by auto
  from ip show "is_digit (hd t)" by (cases t) (auto split: if_splits)
  have ipd: "\<forall>c \<in> set ?ip. is_digit c" by (auto dest: set_takeWhileD)
  show "is_digit (last t)"
  proof (cases ?r)
    case Nil
    then have "t = ?ip" by (metis append_Nil2 takeWhile_dropWhile_id)
    then have "last t \<in> set ?ip" using ip by (metis last_in_set)
    with ipd show ?thesis by blast
  next
    case (Cons c fp)
    with assms have fp: "fp \<noteq> []" "list_all is_digit fp"
      by (simp_all add: price_token_def)
    from Cons have "t = ?ip @ c # fp" using split by simp
    then have "last t = last fp" using fp(1) by (metis last_appendR last_ConsR list.distinct(1))
    with fp show ?thesis by (metis last_in_set list_all_iff)
  qed
  show "\<forall>c \<in> set t. is_digit c \<or> c = CHR ''.''"
  proof (cases ?r)
    case Nil
    then have "t = ?ip" by (metis append_Nil2 takeWhile_dropWhile_id)
    with ipd show ?thesis by metis
  next
    case (Cons c fp)
    with assms have fp: "c = CHR ''.''" "list_all is_digit fp"
      by (simp_all add: price_token_def)
    from Cons have "set t = set ?ip \<union> {c} \<union> set fp"
      using split by (metis Un_insert_right list.simps(15) set_append sup_bot.right_neutral Un_assoc insert_is_Un)
    with ipd fp show ?thesis by (auto simp: list_all_iff)
  qed
qed

lemma price_token_unsigned:
  assumes "price_token t"
  shows "\<exists>x. unsigned_decimal t = Some x \<and> 0 \<le> x"
proof (cases "dropWhile is_digit t")
  case Nil
  from assms have "takeWhile is_digit t \<noteq> []" by (simp add: price_token_def)
  then show ?thesis
    unfolding unsigned_decimal_def Let_def Nil by simp
next
  case (Cons c fp)
  from assms have "c = CHR ''.''" "fp \<noteq> []" "list_all is_digit fp"
    unfolding price_token_def Cons by simp_all
  then show ?thesis
    unfolding unsigned_decimal_def Let_def Cons by simp
qed

lemma py_round3_nonneg: "0 \<le> x \<Longrightarrow> 0 \<le> py_round3 x"
proof -
  assume "0 \<le> x"
  then have "0 \<le> x * 1000" by simp
  then have "round (0::rat) \<le> round (x * 1000)" by (rule round_mono)
  then show ?thesis by (simp add: py_round3_def)
qed

lemma parse_eur_price_token:
  assumes "price_token t"
  shows "\<exists>x. parse_eur t = Some x \<and> 0 \<le> x"
proof -
  note c = price_token_chars [OF assms]
  have "replace_comma t = t"
    unfolding replace_comma_def using c(4) is_digit_plain
    by (intro map_idI) auto
  moreover have "py_strip t = t"
    using c(1,2,3) is_digit_plain by (intro strip_id) auto
  moreover have "py_float t = unsigned_decimal t"
  proof -
    from c(1) obtain a r where t: "t = a # r" by (cases t) auto
    with c(2) have "is_digit a" by simp
    then have "a \<noteq> CHR ''-''" "a \<noteq> CHR ''+''" using is_digit_plain by auto
    moreover have "py_strip (a # r) = a # r" using \<open>py_strip t = t\<close> t by simp
    ultimately show ?thesis unfolding py_float_def t by simp
  qed
  moreover obtain x where "unsigned_decimal t = Some x" "0 \<le> x"
    using price_token_unsigned [OF assms] by blast
  ultimately show ?thesis
    by (simp add: parse_eur_def py_round3_nonneg)
qed











section \<open>The adapters\<close>

lemma alloc_fst: "fst (alloc d h) = next_ref h"
  by (simp add: alloc_def)

lemma alloc_next: "next_ref (snd (alloc d h)) = Suc (next_ref h)"
  by (simp add: alloc_def)

lemma alloc_cells: "cells (snd (alloc d h)) r = (if r = next_ref h then d else cells h r)"
  by (simp add: alloc_def)

lemma chain_stations_next:
  "next_ref (snd (chain_stations nm src addrs pr h)) = next_ref h + length addrs"
  by (induction nm src addrs pr h rule: chain_stations.induct)
     (auto simp: alloc_def split: prod.splits)

lemma chain_stations_cells:
  "cells (snd (chain_stations nm src addrs pr h)) r =
     (if next_ref h \<le> r \<and> r < next_ref h + length addrs then pr else cells h r)"
  by (induction nm src addrs pr h arbitrary: r rule: chain_stations.induct)
     (auto simp: alloc_def split: prod.splits)

lemma chain_stations_Cons:
  "chain_stations nm src (addr # addrs) pr h =
     (\<lparr>name = nm, address = addr, prices = next_ref h, source = src, timestamp = ''''\<rparr>
        # fst (chain_stations nm src addrs pr (snd (alloc pr h))),
      snd (chain_stations nm src addrs pr (snd (alloc pr h))))"
  by (simp add: alloc_def split: prod.splits)

lemma chain_stations_refs:
  "map prices (fst (chain_stations nm src addrs pr h)) = [next_ref h ..< next_ref h + length addrs]"
proof (induction addrs arbitrary: h)
  case Nil
  then show ?case by simp
next
  case (Cons addr addrs)
  have "map prices (fst (chain_stations nm src (addr # addrs) pr h)) =
      next_ref h # [Suc (next_ref h) ..< Suc (next_ref h) + length addrs]"
    by (simp only: chain_stations_Cons fst_conv list.map Cons alloc_next) simp
  also have "\<dots> = [next_ref h ..< next_ref h + length (addr # addrs)]"
    by (simp add: upt_conv_Cons del: upt_Suc)
  finally show ?case .
qed

lemma chain_stations_address:
  "map address (fst (chain_stations nm src addrs pr h)) = addrs"
  by (induction nm src addrs pr h rule: chain_stations.induct)
     (auto split: prod.splits)

lemma chain_stations_const:
  "list_all (\<lambda>st. name st = nm \<and> source st = src \<and> timestamp st = '''')
     (fst (chain_stations nm src addrs pr h))"
  by (induction nm src addrs pr h rule: chain_stations.induct)
     (auto split: prod.splits)

lemma chain_stations_records:
  assumes "chain_stations nm src addrs pr h = (sts, h')"
  shows "chain_records nm src addrs pr sts h h'"
proof -
  from assms have s: "sts = fst (chain_stations nm src addrs pr h)"
    and h: "h' = snd (chain_stations nm src addrs pr h)" by simp_all
  have refs: "map prices sts = [next_ref h ..< next_ref h + length addrs]"
    unfolding s by (rule chain_stations_refs)
  have nxt: "next_ref h' = next_ref h + length addrs"
    unfolding h by (rule chain_stations_next)
  have in_range: "next_ref h \<le> prices st \<and> prices st < next_ref h + length addrs"
    if "st \<in> set sts" for st
  proof -
    from that have "prices st \<in> set (map prices sts)" by simp
    then show ?thesis unfolding refs by simp
  qed
  have "distinct (map prices sts)" unfolding refs by simp
  moreover have "list_all (\<lambda>st. next_ref h \<le> prices st \<and> prices st < next_ref h') sts"
    using in_range nxt by (simp add: list_all_iff)
  moreover have "list_all (\<lambda>st. cells h' (prices st) = pr) sts"
    using in_range unfolding h by (simp add: list_all_iff chain_stations_cells)
  moreover have "map address sts = addrs" unfolding s by (rule chain_stations_address)
  moreover have "list_all (\<lambda>st. name st = nm \<and> source st = src \<and> timestamp st = '''') sts"
    unfolding s by (rule chain_stations_const)
  ultimately show ?thesis by (simp add: chain_records_def)
qed


lemma tok_vals:
  "parse_eur ''1.522'' = Some (761 / 500)"
  "parse_eur ''0.735'' = Some (147 / 200)"
  "parse_eur ''1.489'' = Some (1489 / 1000)"
  by code_simp+

lemma example_viada_prices:
  "viada_prices (va_tokens example_viada_page) [] =
     Inr [(''a95'', Some (1489 / 1000)), (''diesel'', Some (1489 / 1000)), (''lpg'', Some (147 / 200))]"
  by (simp add: example_viada_page_def tok_vals not_in_or_less_def)



lemma py_split_nonempty: "py_split sep s \<noteq> []"
  by (induction s) (auto split: list.splits)

lemma gas_station_returns:
  "\<exists>st. gas_station (g1, g2, g3) h =
          Inr (st, snd (alloc [(''a95'', parse_eur g2), (''diesel'', parse_eur g2)] h)) \<and>
        prices st = next_ref h"
proof -
  obtain nm rest where "map py_strip (py_split CHR '','' (py_strip g1)) = nm # rest"
    using py_split_nonempty [of "CHR '',''" "py_strip g1"]
    by (cases "py_split CHR '','' (py_strip g1)") auto
  then show ?thesis
    by (simp add: gas_station_def Let_def alloc_def)
qed

lemma gas_stations_returns:
  "\<exists>sts h'. gas_stations ms h = Inr (sts, h') \<and> next_ref h \<le> next_ref h' \<and>
     (\<forall>r < next_ref h. cells h' r = cells h r) \<and>
     (\<forall>st \<in> set sts. next_ref h \<le> prices st \<and> prices st < next_ref h' \<and>
        (\<exists>m \<in> set ms. cells h' (prices st) =
            [(''a95'', parse_eur (fst (snd m))), (''diesel'', parse_eur (fst (snd m)))]))"
proof (induction ms arbitrary: h)
  case Nil
  then show ?case by simp
next
  case (Cons m ms)
  obtain g1 g2 g3 where m: "m = (g1, g2, g3)" by (cases m) auto
  let ?d = "[(''a95'', parse_eur g2), (''diesel'', parse_eur g2)]"
  let ?h1 = "snd (alloc ?d h)"
  obtain st where st: "gas_station m h = Inr (st, ?h1)" "prices st = next_ref h"
    using gas_station_returns [of g1 g2 g3 h] m by auto
  from Cons.IH [of ?h1] obtain sts h' where
    r: "gas_stations ms ?h1 = Inr (sts, h')" and
    n: "next_ref ?h1 \<le> next_ref h'" and
    old: "\<forall>r < next_ref ?h1. cells h' r = cells ?h1 r" and
    new: "\<forall>st \<in> set sts. next_ref ?h1 \<le> prices st \<and> prices st < next_ref h' \<and>
        (\<exists>m \<in> set ms. cells h' (prices st) =
            [(''a95'', parse_eur (fst (snd m))), (''diesel'', parse_eur (fst (snd m)))])"
    by blast
  have n1: "next_ref ?h1 = Suc (next_ref h)" by (simp add: alloc_def)
  have c1: "cells ?h1 r = (if r = next_ref h then ?d else cells h r)" for r
    by (simp add: alloc_def)
  have res: "gas_stations (m # ms) h = Inr (st # sts, h')"
    by (simp add: st r)
  have a: "next_ref h \<le> next_ref h'" using n n1 by simp
  have b: "\<forall>r < next_ref h. cells h' r = cells h r"
    using old n1 c1 by simp
  have own: "cells h' (prices st) = ?d"
    using old n1 c1 st(2) by simp
  have c: "\<forall>s \<in> set (st # sts). next_ref h \<le> prices s \<and> prices s < next_ref h' \<and>
        (\<exists>m' \<in> set (m # ms). cells h' (prices s) =
            [(''a95'', parse_eur (fst (snd m'))), (''diesel'', parse_eur (fst (snd m')))])"
  proof
    fix s assume "s \<in> set (st # sts)"
    then consider "s = st" | "s \<in> set sts" by auto
    then show "next_ref h \<le> prices s \<and> prices s < next_ref h' \<and>
        (\<exists>m' \<in> set (m # ms). cells h' (prices s) =
            [(''a95'', parse_eur (fst (snd m'))), (''diesel'', parse_eur (fst (snd m')))])"
    proof cases
      case 1
      then show ?thesis using own st(2) n n1 m by auto
    next
      case 2
      with new n1 show ?thesis by auto
    qed
  qed
  from res a b c show ?case by blast
qed

lemma prices_ok_dict_set:
  "prices_ok pr \<Longrightarrow> k \<in> set SUPPORTED_FUELS \<Longrightarrow> 0 \<le> x \<Longrightarrow> prices_ok (dict_set k (Some x) pr)"
  by (induction pr) (auto simp: prices_ok_def)

lemma prices_ok_Nil: "prices_ok []"
  by (simp add: prices_ok_def)

lemma prices_ok_lookup:
  "prices_ok pr \<Longrightarrow> map_of pr k = Some v \<Longrightarrow> \<exists>x. v = Some x \<and> 0 \<le> x"
proof -
  assume ok: "prices_ok pr" and m: "map_of pr k = Some v"
  from m have "(k, v) \<in> set pr" by (rule map_of_SomeD)
  with ok show ?thesis
    by (auto simp: prices_ok_def list_all_iff split: option.splits)
qed

lemma not_in_or_less_returns:
  "prices_ok pr \<Longrightarrow> \<exists>b. not_in_or_less val k pr = Inr b"
proof (cases "map_of pr k")
  case None
  then have "not_in_or_less val k pr = Inr True" by (simp add: not_in_or_less_def)
  then show ?thesis by blast
next
  case (Some v)
  assume "prices_ok pr"
  with Some obtain x where "v = Some x" using prices_ok_lookup by blast
  with Some show ?thesis by (simp add: not_in_or_less_def)
qed

lemma fuels: "''a95'' \<in> set SUPPORTED_FUELS" "''a98'' \<in> set SUPPORTED_FUELS"
  "''diesel'' \<in> set SUPPORTED_FUELS" "''lpg'' \<in> set SUPPORTED_FUELS"
  by (simp_all add: SUPPORTED_FUELS_def)

lemma viada_prices_returns:
  "list_all price_token toks \<Longrightarrow> prices_ok pr \<Longrightarrow>
   \<exists>pr'. viada_prices toks pr = Inr pr' \<and> prices_ok pr'"
proof (induction toks arbitrary: pr)
  case Nil
  then show ?case by simp
next
  case (Cons tok toks)
  then have tok: "price_token tok" and rest: "list_all price_token toks" by simp_all
  from tok obtain val where val: "parse_eur tok = Some val" "0 \<le> val"
    using parse_eur_price_token by blast
  show ?case
  proof (cases "val < 1")
    case True
    obtain b where b: "not_in_or_less val ''lpg'' pr = Inr b"
      using not_in_or_less_returns [OF Cons.prems(2)] by blast
    have "prices_ok (if b then dict_set ''lpg'' (Some val) pr else pr)"
      using Cons.prems(2) val(2) by (simp add: prices_ok_dict_set fuels)
    from Cons.IH [OF rest this] show ?thesis
      by (simp add: val True b)
  next
    case False
    obtain b95 where b95: "not_in_or_less val ''a95'' pr = Inr b95"
      using not_in_or_less_returns [OF Cons.prems(2)] by blast
    let ?p1 = "if b95 then dict_set ''a95'' (Some val) pr else pr"
    have ok1: "prices_ok ?p1"
      using Cons.prems(2) val(2) by (simp add: prices_ok_dict_set fuels)
    obtain bd where bd: "not_in_or_less val ''diesel'' ?p1 = Inr bd"
      using not_in_or_less_returns [OF ok1] by blast
    have "prices_ok (if bd then dict_set ''diesel'' (Some val) ?p1 else ?p1)"
      using ok1 val(2) by (simp add: prices_ok_dict_set fuels)
    from Cons.IH [OF rest this] show ?thesis
      using val(1) False b95 bd by simp
  qed
qed

lemma merge_prices_ok:
  "prices_ok (cells h r) \<Longrightarrow> prices_ok items \<Longrightarrow> prices_ok (cells (merge_prices r items h) r)"
proof (induction r items h rule: merge_prices.induct)
  case (1 r h)
  then show ?case by simp
next
  case (2 r k v items h)
  from "2.prems"(2) have items: "prices_ok items"
    and kv: "k \<in> set SUPPORTED_FUELS" "\<exists>x. v = Some x \<and> 0 \<le> x"
    by (auto simp: prices_ok_def split: option.splits)
  from kv obtain x where x: "v = Some x" "0 \<le> x" by blast
  have st: "prices_ok (cells (store r k x h) r)"
    using "2.prems"(1) kv(1) x(2) by (simp add: cells_store prices_ok_dict_set)
  show ?case
    using "2.IH" "2.prems"(1) items st x
    by (auto split: option.splits)
qed

lemma merge_prices_ok_all:
  assumes "\<forall>r \<in> R. prices_ok (cells h r)" and "r \<in> R" and "r' \<in> R"
  shows "\<forall>q \<in> R. prices_ok (cells (merge_prices r (cells h r') h) q)"
proof
  fix q assume q: "q \<in> R"
  show "prices_ok (cells (merge_prices r (cells h r') h) q)"
  proof (cases "q = r")
    case True
    with assms show ?thesis by (simp add: merge_prices_ok)
  next
    case False
    with assms q show ?thesis by (simp add: merge_prices_other)
  qed
qed

lemma dedup_ok:
  "\<forall>e \<in> snd ` set (fst s). prices e \<in> R \<Longrightarrow> \<forall>st \<in> set sts. prices st \<in> R \<Longrightarrow>
   \<forall>r \<in> R. prices_ok (cells (snd s) r) \<Longrightarrow>
   \<forall>r \<in> R. prices_ok (cells (snd (dedup lower sts s)) r)"
proof (induction sts arbitrary: s)
  case Nil
  then show ?case by simp
next
  case (Cons st sts)
  let ?s1 = "merge_station lower st s"
  have a: "\<forall>e \<in> snd ` set (fst ?s1). prices e \<in> R"
    using Cons.prems(1,2) by (auto simp: fst_merge_station split: option.splits)
  have b: "\<forall>st \<in> set sts. prices st \<in> R" using Cons.prems(2) by simp
  have c: "\<forall>r \<in> R. prices_ok (cells (snd ?s1) r)"
  proof (cases "map_of (fst s) (canonical_key lower st)")
    case None
    with Cons.prems(3) show ?thesis by (simp add: snd_merge_station)
  next
    case (Some e)
    then have "(canonical_key lower st, e) \<in> set (fst s)" by (rule map_of_SomeD)
    then have "e \<in> snd ` set (fst s)" by force
    with Cons.prems(1) have "prices e \<in> R" by blast
    moreover have "prices st \<in> R" using Cons.prems(2) by simp
    ultimately have "\<forall>q \<in> R. prices_ok (cells (merge_prices (prices e) (cells (snd s) (prices st)) (snd s)) q)"
      using Cons.prems(3) by (intro merge_prices_ok_all) auto
    with Some show ?thesis by (simp add: snd_merge_station)
  qed
  from Cons.IH [OF a b c] show ?case by simp
qed

lemma fetch_all_ok:
  assumes "list_all (\<lambda>st. prices_ok (cells h (prices st))) (collect results)"
  shows "list_all (\<lambda>st. prices_ok (cells (snd (fetch_all lower results h)) (prices st)))
           (fst (fetch_all lower results h))"
proof -
  let ?R = "prices ` set (collect results)"
  have "\<forall>r \<in> ?R. prices_ok (cells (snd (dedup lower (collect results) ([], h))) r)"
    using assms by (intro dedup_ok) (auto simp: list_all_iff)
  moreover have "set (fst (fetch_all lower results h)) \<subseteq> set (collect results)"
    using dedup_from_input [of lower "collect results" "([], h)"] by (simp add: fetch_all_fst)
  ultimately show ?thesis
    by (auto simp: list_all_iff fetch_all_snd)
qed

lemma grab_ok:
  "prices_ok pr \<Longrightarrow> opt_token m \<Longrightarrow> k \<in> set SUPPORTED_FUELS \<Longrightarrow> prices_ok (grab m k pr)"
proof (cases m)
  case None
  assume "prices_ok pr"
  with None show ?thesis by (simp add: grab_def)
next
  case (Some tok)
  assume ok: "prices_ok pr" and "opt_token m" and k: "k \<in> set SUPPORTED_FUELS"
  with Some have "price_token tok" by (simp add: opt_token_def)
  then obtain x where "parse_eur tok = Some x" "0 \<le> x"
    using parse_eur_price_token by blast
  with Some ok k show ?thesis by (simp add: grab_def prices_ok_dict_set)
qed

lemma chain_stations_ok:
  assumes "chain_stations nm src addrs pr h = (sts, h')" and "prices_ok pr"
  shows "list_all (\<lambda>st. prices_ok (cells h' (prices st))) sts"
proof -
  from assms(1) have "chain_records nm src addrs pr sts h h'"
    by (rule chain_stations_records)
  then have "list_all (\<lambda>st. cells h' (prices st) = pr) sts"
    by (simp add: chain_records_def)
  with assms(2) show ?thesis by (simp add: list_all_iff)
qed

lemma gas_ok:
  assumes "list_all (\<lambda>m. price_token (fst (snd m))) ms"
    and "fetch_gas_didnt_work (Inr ms) h = Inr (sts, h')"
  shows "list_all (\<lambda>st. prices_ok (cells h' (prices st))) sts"
proof -
  from gas_stations_returns [of ms h] assms(2)
  have new: "\<forall>st \<in> set sts. \<exists>m \<in> set ms. cells h' (prices st) =
            [(''a95'', parse_eur (fst (snd m))), (''diesel'', parse_eur (fst (snd m)))]"
    by (auto simp: fetch_gas_didnt_work_def)
  have "prices_ok (cells h' (prices st))" if "st \<in> set sts" for st
  proof -
    from new that obtain m where m: "m \<in> set ms" "cells h' (prices st) =
            [(''a95'', parse_eur (fst (snd m))), (''diesel'', parse_eur (fst (snd m)))]"
      by blast
    with assms(1) have "price_token (fst (snd m))" by (simp add: list_all_iff)
    then obtain x where "parse_eur (fst (snd m)) = Some x" "0 \<le> x"
      using parse_eur_price_token by blast
    with m(2) show ?thesis by (simp add: prices_ok_def fuels)
  qed
  then show ?thesis by (simp add: list_all_iff)
qed

text \<open>
  Claim C5, as stated, fails: the adapters validate nothing about the shape of the
  document. On a Viada page in which the station pattern finds an address and the price
  pattern finds nothing, \<^verbatim>\<open>fetch_viada\<close> returns a list of one record with an empty
  price dictionary, not the empty list.
\<close>

theorem viada_returns_unpriced_records:
  "fst (projr (fetch_viada (Inr unpriced_page) empty_heap)) =
     [\<lparr>name = ''Viada'', address = ''Jelgava Rigas iela 1'', prices = 0, source = ''viada'',
       timestamp = ''''\<rparr>] \<and>
   cells (snd (projr (fetch_viada (Inr unpriced_page) empty_heap))) 0 = [] \<and>
   \<not> isl (fetch_viada (Inr unpriced_page) empty_heap) \<and>
   fetch_viada (Inr unpriced_page) empty_heap \<noteq> Inr ([], empty_heap)"
  by (simp add: fetch_viada_def unpriced_page_def alloc_def empty_heap_def)

text \<open>
  Claim C5, amended. An adapter whose transport raised returns the empty list. No
  adapter raises to its caller: gas.didnt.work, Circle K, Neste and Virsi on every
  document, Viada on every document whose price tokens have the form its price pattern
  matches. An adapter whose station pattern finds nothing in the document returns the
  empty list. A chain adapter whose price patterns find nothing returns one record for
  each address found (the first 20, for Virsi the first 10), each with an empty price
  dictionary.
\<close>

theorem adapters_never_raise:
  "fetch_gas_didnt_work (Inl e) h = Inr ([], h) \<and>
   fetch_circlek (Inl e) h = Inr ([], h) \<and>
   fetch_neste (Inl e) h = Inr ([], h) \<and>
   fetch_virsi (Inl e) h = Inr ([], h) \<and>
   fetch_viada (Inl e) h = Inr ([], h) \<and>
   \<not> isl (fetch_gas_didnt_work got_g h) \<and>
   \<not> isl (fetch_circlek got_c h) \<and>
   \<not> isl (fetch_neste got_n h) \<and>
   \<not> isl (fetch_virsi got_v h) \<and>
   ((\<forall>page. got_a = Inr page \<longrightarrow> list_all price_token (va_tokens page))
      \<longrightarrow> \<not> isl (fetch_viada got_a h)) \<and>
   fetch_gas_didnt_work (Inr []) h = Inr ([], h) \<and>
   (ck_addresses cp = [] \<longrightarrow> fetch_circlek (Inr cp) h = Inr ([], h)) \<and>
   (ne_addr_block np = [] \<longrightarrow> fetch_neste (Inr np) h = Inr ([], h)) \<and>
   (vi_addresses vp = [] \<longrightarrow> fetch_virsi (Inr vp) h = Inr ([], h)) \<and>
   (list_all price_token (va_tokens ap) \<and> va_addrs ap = []
      \<longrightarrow> fetch_viada (Inr ap) h = Inr ([], h)) \<and>
   (ck_95miles cp = None \<and> ck_98miles cp = None \<and> ck_dmiles cp = None \<and> ck_autogaze cp = None
      \<longrightarrow> fetch_circlek (Inr cp) h =
            Inr (chain_stations ''Circle K'' ''circlek'' (take 20 (ck_addresses cp)) [] h)) \<and>
   (ne_m95 np = None \<and> ne_m98 np = None \<and> ne_md np = None
      \<longrightarrow> fetch_neste (Inr np) h =
            Inr (chain_stations ''Neste'' ''neste'' (take 20 (ne_addr_block np)) [] h)) \<and>
   (vi_m95 vp = None \<and> vi_m98 vp = None \<and> vi_md vp = None \<and> vi_lpg vp = None
      \<longrightarrow> fetch_virsi (Inr vp) h =
            Inr (chain_stations (''Vir'' @ [CHR 0xC5, CHR 0xA1] @ ''i'') ''virsi''
                   (take 10 (vi_addresses vp)) [] h)) \<and>
   (va_tokens ap = []
      \<longrightarrow> fetch_viada (Inr ap) h =
            Inr (chain_stations ''Viada'' ''viada'' (take 20 (va_addrs ap)) [] h))"
proof (intro conjI impI)
  show "\<not> isl (fetch_gas_didnt_work got_g h)"
  proof (cases got_g)
    case (Inl e)
    then show ?thesis by (simp add: fetch_gas_didnt_work_def)
  next
    case (Inr ms)
    with gas_stations_returns [of ms h] show ?thesis
      by (auto simp: fetch_gas_didnt_work_def)
  qed
  show "\<not> isl (fetch_circlek got_c h)"
    by (cases got_c) (simp_all add: fetch_circlek_def Let_def)
  show "\<not> isl (fetch_neste got_n h)"
    by (cases got_n) (simp_all add: fetch_neste_def Let_def)
  show "\<not> isl (fetch_virsi got_v h)"
    by (cases got_v) (simp_all add: fetch_virsi_def Let_def)
  show "\<not> isl (fetch_viada got_a h)"
    if t: "\<forall>page. got_a = Inr page \<longrightarrow> list_all price_token (va_tokens page)"
  proof (cases got_a)
    case (Inl e)
    then show ?thesis by (simp add: fetch_viada_def)
  next
    case (Inr page)
    with t have "list_all price_token (va_tokens page)" by simp
    then obtain pr where "viada_prices (va_tokens page) [] = Inr pr"
      using viada_prices_returns [OF _ prices_ok_Nil] by blast
    with Inr show ?thesis by (simp add: fetch_viada_def)
  qed
  show "fetch_viada (Inr ap) h = Inr ([], h)"
    if t: "list_all price_token (va_tokens ap) \<and> va_addrs ap = []"
  proof -
    from t obtain pr where "viada_prices (va_tokens ap) [] = Inr pr"
      using viada_prices_returns [OF _ prices_ok_Nil] by blast
    with t show ?thesis by (simp add: fetch_viada_def)
  qed
qed (simp_all add: fetch_gas_didnt_work_def fetch_circlek_def fetch_neste_def fetch_virsi_def
         fetch_viada_def grab_def Let_def)

lemma example_tokens: "list_all price_token (va_tokens example_viada_page)"
  by code_simp

theorem adapters_never_raise_witness:
  "\<not> isl (fetch_viada (Inr example_viada_page) empty_heap) \<and>
   fetch_viada (Inr (example_viada_page\<lparr>va_addrs := []\<rparr>)) empty_heap = Inr ([], empty_heap) \<and>
   fetch_circlek (Inr (example_circlek_page\<lparr>ck_addresses := []\<rparr>)) empty_heap
     = Inr ([], empty_heap) \<and>
   fetch_neste (Inr (example_neste_page\<lparr>ne_addr_block := []\<rparr>)) empty_heap
     = Inr ([], empty_heap) \<and>
   fetch_virsi (Inr (example_virsi_page\<lparr>vi_addresses := []\<rparr>)) empty_heap
     = Inr ([], empty_heap) \<and>
   fetch_viada (Inr unpriced_page) empty_heap =
     Inr (chain_stations ''Viada'' ''viada'' (take 20 (va_addrs unpriced_page)) [] empty_heap) \<and>
   fetch_circlek (Inr (example_circlek_page\<lparr>ck_95miles := None, ck_98miles := None,
        ck_dmiles := None\<rparr>)) empty_heap =
     Inr (chain_stations ''Circle K'' ''circlek'' (take 20 (ck_addresses example_circlek_page))
            [] empty_heap) \<and>
   fetch_neste (Inr (example_neste_page\<lparr>ne_m95 := None, ne_md := None\<rparr>)) empty_heap =
     Inr (chain_stations ''Neste'' ''neste'' (take 20 (ne_addr_block example_neste_page))
            [] empty_heap) \<and>
   fetch_virsi (Inr (example_virsi_page\<lparr>vi_m95 := None, vi_m98 := None, vi_md := None,
        vi_lpg := None\<rparr>)) empty_heap =
     Inr (chain_stations (''Vir'' @ [CHR 0xC5, CHR 0xA1] @ ''i'') ''virsi''
            (take 10 (vi_addresses example_virsi_page)) [] empty_heap)"
proof -
  have a: "\<forall>page. (Inr example_viada_page :: exn + viada_page) = Inr page
      \<longrightarrow> list_all price_token (va_tokens page)"
    using example_tokens by simp
  have b: "list_all price_token (va_tokens (example_viada_page\<lparr>va_addrs := []\<rparr>)) \<and>
      va_addrs (example_viada_page\<lparr>va_addrs := []\<rparr>) = []"
    using example_tokens by simp
  have c: "ck_addresses (example_circlek_page\<lparr>ck_addresses := []\<rparr>) = []"
    "ne_addr_block (example_neste_page\<lparr>ne_addr_block := []\<rparr>) = []"
    "vi_addresses (example_virsi_page\<lparr>vi_addresses := []\<rparr>) = []"
    by simp_all
  let ?cp = "example_circlek_page\<lparr>ck_95miles := None, ck_98miles := None, ck_dmiles := None\<rparr>"
  let ?np = "example_neste_page\<lparr>ne_m95 := None, ne_md := None\<rparr>"
  let ?vp = "example_virsi_page\<lparr>vi_m95 := None, vi_m98 := None, vi_md := None, vi_lpg := None\<rparr>"
  have d: "ck_95miles ?cp = None \<and> ck_98miles ?cp = None \<and> ck_dmiles ?cp = None \<and>
      ck_autogaze ?cp = None"
    "ne_m95 ?np = None \<and> ne_m98 ?np = None \<and> ne_md ?np = None"
    "vi_m95 ?vp = None \<and> vi_m98 ?vp = None \<and> vi_md ?vp = None \<and> vi_lpg ?vp = None"
    "va_tokens unpriced_page = []"
    by (simp_all add: example_circlek_page_def example_neste_page_def unpriced_page_def)
  have e: "ck_addresses ?cp = ck_addresses example_circlek_page"
    "ne_addr_block ?np = ne_addr_block example_neste_page"
    "vi_addresses ?vp = vi_addresses example_virsi_page"
    by simp_all
  from a b c
    adapters_never_raise [of ClientError empty_heap "Inr []" "Inl ClientError" "Inl ClientError"
      "Inl ClientError" "Inr example_viada_page"
      "example_circlek_page\<lparr>ck_addresses := []\<rparr>"
      "example_neste_page\<lparr>ne_addr_block := []\<rparr>"
      "example_virsi_page\<lparr>vi_addresses := []\<rparr>"
      "example_viada_page\<lparr>va_addrs := []\<rparr>"]
  have 1: "\<not> isl (fetch_viada (Inr example_viada_page) empty_heap) \<and>
   fetch_viada (Inr (example_viada_page\<lparr>va_addrs := []\<rparr>)) empty_heap = Inr ([], empty_heap) \<and>
   fetch_circlek (Inr (example_circlek_page\<lparr>ck_addresses := []\<rparr>)) empty_heap
     = Inr ([], empty_heap) \<and>
   fetch_neste (Inr (example_neste_page\<lparr>ne_addr_block := []\<rparr>)) empty_heap
     = Inr ([], empty_heap) \<and>
   fetch_virsi (Inr (example_virsi_page\<lparr>vi_addresses := []\<rparr>)) empty_heap
     = Inr ([], empty_heap)"
    by blast
  from d e
    adapters_never_raise [of ClientError empty_heap "Inr []" "Inl ClientError" "Inl ClientError"
      "Inl ClientError" "Inl ClientError" ?cp ?np ?vp unpriced_page]
  have 2: "fetch_viada (Inr unpriced_page) empty_heap =
     Inr (chain_stations ''Viada'' ''viada'' (take 20 (va_addrs unpriced_page)) [] empty_heap) \<and>
   fetch_circlek (Inr ?cp) empty_heap =
     Inr (chain_stations ''Circle K'' ''circlek'' (take 20 (ck_addresses example_circlek_page))
            [] empty_heap) \<and>
   fetch_neste (Inr ?np) empty_heap =
     Inr (chain_stations ''Neste'' ''neste'' (take 20 (ne_addr_block example_neste_page))
            [] empty_heap) \<and>
   fetch_virsi (Inr ?vp) empty_heap =
     Inr (chain_stations (''Vir'' @ [CHR 0xC5, CHR 0xA1] @ ''i'') ''virsi''
            (take 10 (vi_addresses example_virsi_page)) [] empty_heap)"
    by (simp only:) 
  from 1 2 show ?thesis by blast
qed

lemma zero_tok: "parse_eur ''0.000'' = Some 0"
  by code_simp

text \<open>
  Claim C7, as stated, fails: the price pattern of Viada matches \<^verbatim>\<open>0.000\<close>, and the
  adapter stores the price 0 for LPG.
\<close>

theorem viada_stores_zero_price:
  "fst (projr (fetch_viada (Inr zero_price_page) empty_heap)) =
     [\<lparr>name = ''Viada'', address = ''Jelgava Rigas iela 1'', prices = 0, source = ''viada'',
       timestamp = ''''\<rparr>] \<and>
   cells (snd (projr (fetch_viada (Inr zero_price_page) empty_heap))) 0 = [(''lpg'', Some 0)] \<and>
   \<not> isl (fetch_viada (Inr zero_price_page) empty_heap)"
  by (simp add: fetch_viada_def zero_price_page_def zero_tok not_in_or_less_def alloc_def
      empty_heap_def)

text \<open>
  Claim C7, amended. When the price tokens have the form the price patterns match, the
  price dictionary of every record an adapter returns has only canonical fuel
  identifiers as keys and only numbers that are not negative as values; and when every
  record of the working list has such a dictionary, so has every record that
  \<^verbatim>\<open>fetch_all\<close> returns.
\<close>

theorem prices_keys_and_values:
  "(list_all (\<lambda>m. price_token (fst (snd m))) ms \<and>
    fetch_gas_didnt_work (Inr ms) h = Inr (sts, h')
      \<longrightarrow> list_all (\<lambda>st. prices_ok (cells h' (prices st))) sts) \<and>
   (opt_token (ck_95miles cp) \<and> opt_token (ck_98miles cp) \<and> opt_token (ck_dmiles cp) \<and>
    opt_token (ck_autogaze cp) \<and> fetch_circlek (Inr cp) h = Inr (sts, h')
      \<longrightarrow> list_all (\<lambda>st. prices_ok (cells h' (prices st))) sts) \<and>
   (opt_token (ne_m95 np) \<and> opt_token (ne_m98 np) \<and> opt_token (ne_md np) \<and>
    fetch_neste (Inr np) h = Inr (sts, h')
      \<longrightarrow> list_all (\<lambda>st. prices_ok (cells h' (prices st))) sts) \<and>
   (opt_token (vi_m95 vp) \<and> opt_token (vi_m98 vp) \<and> opt_token (vi_md vp) \<and>
    opt_token (vi_lpg vp) \<and> fetch_virsi (Inr vp) h = Inr (sts, h')
      \<longrightarrow> list_all (\<lambda>st. prices_ok (cells h' (prices st))) sts) \<and>
   (list_all price_token (va_tokens ap) \<and> fetch_viada (Inr ap) h = Inr (sts, h')
      \<longrightarrow> list_all (\<lambda>st. prices_ok (cells h' (prices st))) sts) \<and>
   (list_all (\<lambda>st. prices_ok (cells hm (prices st))) (collect results)
      \<longrightarrow> list_all (\<lambda>st. prices_ok (cells (snd (fetch_all lower results hm)) (prices st)))
            (fst (fetch_all lower results hm)))"
proof (intro conjI impI)
  assume "list_all (\<lambda>m. price_token (fst (snd m))) ms \<and>
    fetch_gas_didnt_work (Inr ms) h = Inr (sts, h')"
  then show "list_all (\<lambda>st. prices_ok (cells h' (prices st))) sts"
    using gas_ok by blast
next
  assume a: "opt_token (ck_95miles cp) \<and> opt_token (ck_98miles cp) \<and> opt_token (ck_dmiles cp) \<and>
    opt_token (ck_autogaze cp) \<and> fetch_circlek (Inr cp) h = Inr (sts, h')"
  let ?pr = "grab (ck_autogaze cp) ''lpg'' (grab (ck_dmiles cp) ''diesel''
     (grab (ck_98miles cp) ''a98'' (grab (ck_95miles cp) ''a95'' [])))"
  from a have "prices_ok ?pr"
    by (intro grab_ok prices_ok_Nil fuels) simp_all
  moreover from a have "chain_stations ''Circle K'' ''circlek'' (take 20 (ck_addresses cp)) ?pr h
      = (sts, h')"
    by (simp add: fetch_circlek_def Let_def)
  ultimately show "list_all (\<lambda>st. prices_ok (cells h' (prices st))) sts"
    using chain_stations_ok by blast
next
  assume a: "opt_token (ne_m95 np) \<and> opt_token (ne_m98 np) \<and> opt_token (ne_md np) \<and>
    fetch_neste (Inr np) h = Inr (sts, h')"
  let ?pr = "grab (ne_md np) ''diesel'' (grab (ne_m98 np) ''a98'' (grab (ne_m95 np) ''a95'' []))"
  from a have "prices_ok ?pr"
    by (intro grab_ok prices_ok_Nil fuels) simp_all
  moreover from a have "chain_stations ''Neste'' ''neste'' (take 20 (ne_addr_block np)) ?pr h
      = (sts, h')"
    by (simp add: fetch_neste_def Let_def)
  ultimately show "list_all (\<lambda>st. prices_ok (cells h' (prices st))) sts"
    using chain_stations_ok by blast
next
  assume a: "opt_token (vi_m95 vp) \<and> opt_token (vi_m98 vp) \<and> opt_token (vi_md vp) \<and>
    opt_token (vi_lpg vp) \<and> fetch_virsi (Inr vp) h = Inr (sts, h')"
  let ?pr = "grab (vi_lpg vp) ''lpg'' (grab (vi_md vp) ''diesel''
     (grab (vi_m98 vp) ''a98'' (grab (vi_m95 vp) ''a95'' [])))"
  from a have "prices_ok ?pr"
    by (intro grab_ok prices_ok_Nil fuels) simp_all
  moreover from a have "chain_stations (''Vir'' @ [CHR 0xC5, CHR 0xA1] @ ''i'') ''virsi''
      (take 10 (vi_addresses vp)) ?pr h = (sts, h')"
    by (simp add: fetch_virsi_def Let_def)
  ultimately show "list_all (\<lambda>st. prices_ok (cells h' (prices st))) sts"
    using chain_stations_ok by blast
next
  assume a: "list_all price_token (va_tokens ap) \<and> fetch_viada (Inr ap) h = Inr (sts, h')"
  then obtain pr where pr: "viada_prices (va_tokens ap) [] = Inr pr" "prices_ok pr"
    using viada_prices_returns [OF _ prices_ok_Nil] by blast
  with a have "chain_stations ''Viada'' ''viada'' (take 20 (va_addrs ap)) pr h = (sts, h')"
    by (simp add: fetch_viada_def)
  with pr(2) show "list_all (\<lambda>st. prices_ok (cells h' (prices st))) sts"
    using chain_stations_ok by blast
next
  assume "list_all (\<lambda>st. prices_ok (cells hm (prices st))) (collect results)"
  then show "list_all (\<lambda>st. prices_ok (cells (snd (fetch_all lower results hm)) (prices st)))
            (fst (fetch_all lower results hm))"
    by (rule fetch_all_ok)
qed

lemma Inr_projr: "\<not> isl x \<Longrightarrow> x = Inr (fst (projr x), snd (projr x))"
  by (cases x) simp_all

lemma example_opt_tokens:
  "opt_token (ck_95miles example_circlek_page)" "opt_token (ck_98miles example_circlek_page)"
  "opt_token (ck_dmiles example_circlek_page)" "opt_token (ck_autogaze example_circlek_page)"
  "opt_token (ne_m95 example_neste_page)" "opt_token (ne_m98 example_neste_page)"
  "opt_token (ne_md example_neste_page)"
  "opt_token (vi_m95 example_virsi_page)" "opt_token (vi_m98 example_virsi_page)"
  "opt_token (vi_md example_virsi_page)" "opt_token (vi_lpg example_virsi_page)"
  by code_simp+

lemma example_gas_tokens: "list_all (\<lambda>m. price_token (fst (snd m))) example_gas_matches"
  by code_simp

lemma example_merge_ok:
  "list_all (\<lambda>st. prices_ok (cells example_heap (prices st)))
     (collect [Inr [example_first, example_second]])"
  by (simp add: example_heap_def example_first_def example_second_def prices_ok_def
      SUPPORTED_FUELS_def)

theorem prices_keys_and_values_witness:
  "list_all (\<lambda>st. prices_ok (cells (snd (projr (fetch_gas_didnt_work (Inr example_gas_matches)
                                                  empty_heap))) (prices st)))
     (fst (projr (fetch_gas_didnt_work (Inr example_gas_matches) empty_heap))) \<and>
   list_all (\<lambda>st. prices_ok (cells (snd (projr (fetch_circlek (Inr example_circlek_page)
                                                  empty_heap))) (prices st)))
     (fst (projr (fetch_circlek (Inr example_circlek_page) empty_heap))) \<and>
   list_all (\<lambda>st. prices_ok (cells (snd (projr (fetch_neste (Inr example_neste_page)
                                                  empty_heap))) (prices st)))
     (fst (projr (fetch_neste (Inr example_neste_page) empty_heap))) \<and>
   list_all (\<lambda>st. prices_ok (cells (snd (projr (fetch_virsi (Inr example_virsi_page)
                                                  empty_heap))) (prices st)))
     (fst (projr (fetch_virsi (Inr example_virsi_page) empty_heap))) \<and>
   list_all (\<lambda>st. prices_ok (cells (snd (projr (fetch_viada (Inr example_viada_page)
                                                  empty_heap))) (prices st)))
     (fst (projr (fetch_viada (Inr example_viada_page) empty_heap))) \<and>
   list_all (\<lambda>st. prices_ok (cells (snd (fetch_all ascii_lower [Inr [example_first, example_second]]
                                            example_heap)) (prices st)))
     (fst (fetch_all ascii_lower [Inr [example_first, example_second]] example_heap))"
proof -
  have g: "fetch_gas_didnt_work (Inr example_gas_matches) empty_heap =
      Inr (fst (projr (fetch_gas_didnt_work (Inr example_gas_matches) empty_heap)),
           snd (projr (fetch_gas_didnt_work (Inr example_gas_matches) empty_heap)))"
    using gas_stations_returns [of example_gas_matches empty_heap]
    by (intro Inr_projr) (auto simp: fetch_gas_didnt_work_def)
  have c: "fetch_circlek (Inr example_circlek_page) empty_heap =
      Inr (fst (projr (fetch_circlek (Inr example_circlek_page) empty_heap)),
           snd (projr (fetch_circlek (Inr example_circlek_page) empty_heap)))"
    by (simp add: fetch_circlek_def Let_def)
  have n: "fetch_neste (Inr example_neste_page) empty_heap =
      Inr (fst (projr (fetch_neste (Inr example_neste_page) empty_heap)),
           snd (projr (fetch_neste (Inr example_neste_page) empty_heap)))"
    by (simp add: fetch_neste_def Let_def)
  have v: "fetch_virsi (Inr example_virsi_page) empty_heap =
      Inr (fst (projr (fetch_virsi (Inr example_virsi_page) empty_heap)),
           snd (projr (fetch_virsi (Inr example_virsi_page) empty_heap)))"
    by (simp add: fetch_virsi_def Let_def)
  have a: "fetch_viada (Inr example_viada_page) empty_heap =
      Inr (fst (projr (fetch_viada (Inr example_viada_page) empty_heap)),
           snd (projr (fetch_viada (Inr example_viada_page) empty_heap)))"
    by (simp add: fetch_viada_def example_viada_prices)
  note t = prices_keys_and_values
    [of example_gas_matches empty_heap _ _ example_circlek_page example_neste_page
        example_virsi_page example_viada_page example_heap
        "[Inr [example_first, example_second]]" ascii_lower]
  from g example_gas_tokens
    t [of "fst (projr (fetch_gas_didnt_work (Inr example_gas_matches) empty_heap))"
          "snd (projr (fetch_gas_didnt_work (Inr example_gas_matches) empty_heap))"]
  have 1: "list_all (\<lambda>st. prices_ok (cells (snd (projr (fetch_gas_didnt_work
              (Inr example_gas_matches) empty_heap))) (prices st)))
     (fst (projr (fetch_gas_didnt_work (Inr example_gas_matches) empty_heap)))"
    by blast
  from c example_opt_tokens
    t [of "fst (projr (fetch_circlek (Inr example_circlek_page) empty_heap))"
          "snd (projr (fetch_circlek (Inr example_circlek_page) empty_heap))"]
  have 2: "list_all (\<lambda>st. prices_ok (cells (snd (projr (fetch_circlek
              (Inr example_circlek_page) empty_heap))) (prices st)))
     (fst (projr (fetch_circlek (Inr example_circlek_page) empty_heap)))"
    by blast
  from n example_opt_tokens
    t [of "fst (projr (fetch_neste (Inr example_neste_page) empty_heap))"
          "snd (projr (fetch_neste (Inr example_neste_page) empty_heap))"]
  have 3: "list_all (\<lambda>st. prices_ok (cells (snd (projr (fetch_neste
              (Inr example_neste_page) empty_heap))) (prices st)))
     (fst (projr (fetch_neste (Inr example_neste_page) empty_heap)))"
    by blast
  from v example_opt_tokens
    t [of "fst (projr (fetch_virsi (Inr example_virsi_page) empty_heap))"
          "snd (projr (fetch_virsi (Inr example_virsi_page) empty_heap))"]
  have 4: "list_all (\<lambda>st. prices_ok (cells (snd (projr (fetch_virsi
              (Inr example_virsi_page) empty_heap))) (prices st)))
     (fst (projr (fetch_virsi (Inr example_virsi_page) empty_heap)))"
    by blast
  from a example_tokens
    t [of "fst (projr (fetch_viada (Inr example_viada_page) empty_heap))"
          "snd (projr (fetch_viada (Inr example_viada_page) empty_heap))"]
  have 5: "list_all (\<lambda>st. prices_ok (cells (snd (projr (fetch_viada
              (Inr example_viada_page) empty_heap))) (prices st)))
     (fst (projr (fetch_viada (Inr example_viada_page) empty_heap)))"
    by blast
  from example_merge_ok t [of "[]" empty_heap]
  have 6: "list_all (\<lambda>st. prices_ok (cells (snd (fetch_all ascii_lower [Inr [example_first, example_second]]
                                            example_heap)) (prices st)))
     (fst (fetch_all ascii_lower [Inr [example_first, example_second]] example_heap))"
    by blast
  from 1 2 3 4 5 6 show ?thesis by blast
qed

end
